theory Spec2Isabelle
  imports Complex_Main
begin

section \<open>Errors\<close>

text \<open>
  Every exception the modelled code can raise is a value. An async function returns
  \<open>js_error + 'a\<close>: \<open>Inl e\<close> is a rejected promise (a throw), \<open>Inr v\<close> a fulfilled one.
\<close>

datatype js_error =
    RedisError
  | DbError
  | TypeError
  | InvalidCategory string
  | NoFactsAvailable
  | NoFactsForCategory string
  | FactTextRequired
  | FactTextLength
  | CategoryMustBeOneOf
  | ContentRejected
  | FailedToGenerate

section \<open>The Redis client and \<open>config/redis.js\<close>\<close>

text \<open>
  The ioredis client is a library; its commands are modelled on a keyspace that maps a key
  to a value and an optional expiry instant (milliseconds). A key whose expiry instant has
  passed is absent. The client answers its \<open>n\<close>-th command with an error when \<open>faults n\<close>
  holds (connection lost, command timeout), so any pattern of backing-store failures can be
  written down. Times are milliseconds since the epoch, TTLs are seconds, as in the source.

  The keyspace is typed by what a group of keys holds: the rate-limit keys hold the decimal
  integers that \<open>INCR\<close> writes (the model keeps the integer, which is what \<open>parseInt\<close> reads
  back), the fact keys hold the JSON text of a fact (the model keeps the fact, which is what
  \<open>JSON.parse\<close> reads back from what \<open>JSON.stringify\<close> wrote).
\<close>

record ('k, 'v) redis_client =
  client_status :: string
  faults :: "nat \<Rightarrow> bool"
  issued :: nat
  entries :: "'k \<Rightarrow> ('v \<times> int option) option"

definition rejects :: "('k, 'v) redis_client \<Rightarrow> bool" where
  "rejects c = faults c (issued c)"

definition tick :: "('k, 'v) redis_client \<Rightarrow> ('k, 'v) redis_client" where
  "tick c = c\<lparr>issued := Suc (issued c)\<rparr>"

definition live :: "int \<Rightarrow> ('v \<times> int option) option \<Rightarrow> 'v option" where
  "live now e =
     (case e of
        None \<Rightarrow> None
      | Some (v, None) \<Rightarrow> Some v
      | Some (v, Some t) \<Rightarrow> if now < t then Some v else None)"

definition client_get ::
  "int \<Rightarrow> ('k, 'v) redis_client \<Rightarrow> 'k \<Rightarrow> (js_error + 'v option) \<times> ('k, 'v) redis_client" where
  "client_get now c k =
     (if rejects c then (Inl RedisError, tick c)
      else (Inr (live now (entries c k)), tick c))"

definition client_set ::
  "('k, 'v) redis_client \<Rightarrow> 'k \<Rightarrow> 'v \<Rightarrow> (js_error + unit) \<times> ('k, 'v) redis_client" where
  "client_set c k v =
     (if rejects c then (Inl RedisError, tick c)
      else (Inr (), (tick c)\<lparr>entries := (entries c)(k \<mapsto> (v, None))\<rparr>))"

definition client_setex ::
  "int \<Rightarrow> ('k, 'v) redis_client \<Rightarrow> 'k \<Rightarrow> int \<Rightarrow> 'v
     \<Rightarrow> (js_error + unit) \<times> ('k, 'v) redis_client" where
  "client_setex now c k ttl v =
     (if rejects c \<or> ttl \<le> 0 then (Inl RedisError, tick c)
      else (Inr (), (tick c)\<lparr>entries := (entries c)(k \<mapsto> (v, Some (now + ttl * 1000)))\<rparr>))"

definition client_del ::
  "('k, 'v) redis_client \<Rightarrow> 'k \<Rightarrow> (js_error + unit) \<times> ('k, 'v) redis_client" where
  "client_del c k =
     (if rejects c then (Inl RedisError, tick c)
      else (Inr (), (tick c)\<lparr>entries := (entries c)(k := None)\<rparr>))"

text \<open>\<open>INCR\<close> is one atomic command of the server: it adds one to the live value (a missing
  or expired key counts as 0 and loses its expiry) and answers the new value.\<close>

definition client_incr ::
  "int \<Rightarrow> ('k, int) redis_client \<Rightarrow> 'k \<Rightarrow> (js_error + int) \<times> ('k, int) redis_client" where
  "client_incr now c k =
     (if rejects c then (Inl RedisError, tick c)
      else (case live now (entries c k) of
              None \<Rightarrow> (Inr 1, (tick c)\<lparr>entries := (entries c)(k \<mapsto> (1, None))\<rparr>)
            | Some n \<Rightarrow>
                (Inr (n + 1),
                 (tick c)\<lparr>entries :=
                    (entries c)(k \<mapsto> (n + 1, case entries c k of None \<Rightarrow> None | Some e \<Rightarrow> snd e))\<rparr>)))"

definition client_expire ::
  "int \<Rightarrow> ('k, 'v) redis_client \<Rightarrow> 'k \<Rightarrow> int \<Rightarrow> (js_error + unit) \<times> ('k, 'v) redis_client" where
  "client_expire now c k ttl =
     (if rejects c then (Inl RedisError, tick c)
      else (case live now (entries c k) of
              None \<Rightarrow> (Inr (), (tick c)\<lparr>entries := (entries c)(k := None)\<rparr>)
            | Some v \<Rightarrow>
                if ttl \<le> 0 then (Inr (), (tick c)\<lparr>entries := (entries c)(k := None)\<rparr>)
                else (Inr (), (tick c)\<lparr>entries := (entries c)(k \<mapsto> (v, Some (now + ttl * 1000)))\<rparr>)))"

text \<open>\<open>class RedisConnection\<close>: the client (null until \<open>connect\<close>) and the \<open>isConnected\<close>
  flag that the event handlers maintain.\<close>

record ('k, 'v) RedisConnection =
  client :: "('k, 'v) redis_client option"
  isConnected :: bool

definition isConnectionReady :: "('k, 'v) RedisConnection \<Rightarrow> bool" where
  "isConnectionReady conn =
     (isConnected conn \<and>
      (case client conn of None \<Rightarrow> False | Some c \<Rightarrow> client_status c = ''ready''))"

text \<open>\<open>get\<close>, \<open>set\<close>, \<open>del\<close> and \<open>increment\<close> of \<open>RedisConnection\<close>, exported as \<open>cache.get\<close>,
  \<open>cache.set\<close>, \<open>cache.del\<close> and \<open>cache.increment\<close>. Each body is inside \<open>try\<close>; the
  \<open>catch\<close> logs and returns the fallback value. The branch for a missing client under a
  ready connection cannot be reached (\<open>isConnectionReady\<close> is false then); it is the
  \<open>TypeError\<close> of \<open>this.client.get\<close> on null, caught like any other error.\<close>

definition cache_get ::
  "int \<Rightarrow> ('k, 'v) RedisConnection \<Rightarrow> 'k \<Rightarrow> (js_error + 'v option) \<times> ('k, 'v) RedisConnection" where
  "cache_get now conn key =
     (if \<not> isConnectionReady conn then (Inr None, conn)
      else (case client conn of
              None \<Rightarrow> (Inr None, conn)
            | Some c \<Rightarrow>
                (case client_get now c key of
                   (Inl e, c') \<Rightarrow> (Inr None, conn\<lparr>client := Some c'\<rparr>)
                 | (Inr v, c') \<Rightarrow> (Inr v, conn\<lparr>client := Some c'\<rparr>))))"

text \<open>\<open>ttl\<close> is \<open>None\<close> when the caller passes no TTL (or \<open>undefined\<close>): the default
  parameter \<open>config.performance.cacheTtl\<close> applies. \<open>if (ttl)\<close> is false for 0.\<close>

definition cache_set ::
  "int \<Rightarrow> int \<Rightarrow> ('k, 'v) RedisConnection \<Rightarrow> 'k \<Rightarrow> 'v \<Rightarrow> int option
     \<Rightarrow> (js_error + bool) \<times> ('k, 'v) RedisConnection" where
  "cache_set cacheTtl now conn key val ttl =
     (if \<not> isConnectionReady conn then (Inr False, conn)
      else (case client conn of
              None \<Rightarrow> (Inr False, conn)
            | Some c \<Rightarrow>
                (let t = (case ttl of None \<Rightarrow> cacheTtl | Some t \<Rightarrow> t);
                     r = (if t \<noteq> 0 then client_setex now c key t val else client_set c key val)
                 in case r of
                      (Inl e, c') \<Rightarrow> (Inr False, conn\<lparr>client := Some c'\<rparr>)
                    | (Inr u, c') \<Rightarrow> (Inr True, conn\<lparr>client := Some c'\<rparr>))))"

definition cache_del ::
  "('k, 'v) RedisConnection \<Rightarrow> 'k \<Rightarrow> (js_error + bool) \<times> ('k, 'v) RedisConnection" where
  "cache_del conn key =
     (if \<not> isConnectionReady conn then (Inr False, conn)
      else (case client conn of
              None \<Rightarrow> (Inr False, conn)
            | Some c \<Rightarrow>
                (case client_del c key of
                   (Inl e, c') \<Rightarrow> (Inr False, conn\<lparr>client := Some c'\<rparr>)
                 | (Inr u, c') \<Rightarrow> (Inr True, conn\<lparr>client := Some c'\<rparr>))))"

definition cache_increment ::
  "int \<Rightarrow> int \<Rightarrow> ('k, int) RedisConnection \<Rightarrow> 'k \<Rightarrow> int option
     \<Rightarrow> (js_error + int) \<times> ('k, int) RedisConnection" where
  "cache_increment cacheTtl now conn key ttl =
     (if \<not> isConnectionReady conn then (Inr 0, conn)
      else (case client conn of
              None \<Rightarrow> (Inr 0, conn)
            | Some c \<Rightarrow>
                (let t = (case ttl of None \<Rightarrow> cacheTtl | Some t \<Rightarrow> t)
                 in case client_incr now c key of
                      (Inl e, c') \<Rightarrow> (Inr 0, conn\<lparr>client := Some c'\<rparr>)
                    | (Inr result, c') \<Rightarrow>
                        if t \<noteq> 0 \<and> result = 1 then
                          (case client_expire now c' key t of
                             (Inl e, c'') \<Rightarrow> (Inr 0, conn\<lparr>client := Some c''\<rparr>)
                           | (Inr u, c'') \<Rightarrow> (Inr result, conn\<lparr>client := Some c''\<rparr>))
                        else (Inr result, conn\<lparr>client := Some c'\<rparr>))))"

section \<open>The documents: \<open>models/User.js\<close> and \<open>models/ApiKey.js\<close>\<close>

text \<open>The fields of a User document that the modelled code reads or writes. Numbers of
  requests are JavaScript numbers holding integers; dates are milliseconds.\<close>

record user =
  user_id :: string
  plan :: string
  user_status :: string
  limit_monthly_requests :: int
  features :: "string list"
  user_total_requests :: int
  user_monthly_requests :: int
  last_request :: "int option"
  user_monthly_reset_date :: int

text \<open>The fields of an ApiKey document. \<open>userId\<close> is the reference; \<open>populate\<close> resolves
  it to the User document.\<close>

record apiKey =
  key_id :: string
  key :: string
  key_status :: string
  userId :: string
  total_requests :: int
  monthly_requests :: int
  last_used :: "int option"
  monthly_reset_date :: int
  endpoints :: "string list"
  rate_limit_override :: "int option"
  ip_whitelist :: "string list"
  allowed_origins :: "string list"
  expiry :: "int option"
  popular_endpoints :: "(string \<times> int) list"
  error_count :: int
  avg_response_time :: real

text \<open>What the code takes from its environment: \<open>nextReset now\<close> is the first day of the
  month after \<open>now\<close> at local midnight (the \<open>Date\<close> arithmetic of \<open>resetMonthlyUsage\<close>),
  \<open>generatedKey\<close> the result of \<open>generateApiKey\<close> (random bytes).\<close>

record environment =
  nextReset :: "int \<Rightarrow> int"
  generatedKey :: string

subsection \<open>User methods\<close>

definition user_resetMonthlyUsage :: "environment \<Rightarrow> int \<Rightarrow> user \<Rightarrow> user" where
  "user_resetMonthlyUsage env now u =
     u\<lparr>user_monthly_requests := 0, user_monthly_reset_date := nextReset env now\<rparr>"

text \<open>\<open>save\<close> runs the \<open>pre('save')\<close> hook and then writes the document. None of the
  modelled callers modifies \<open>password\<close> or \<open>plan\<close>, so of the hook only the monthly reset
  can fire. When the write fails (\<open>db_ok\<close> false) the promise rejects; the in-memory
  document keeps what the method and the hook did to it.\<close>

definition user_save :: "environment \<Rightarrow> bool \<Rightarrow> int \<Rightarrow> user \<Rightarrow> (js_error + unit) \<times> user" where
  "user_save env db_ok now u =
     (let u' = (if now \<ge> user_monthly_reset_date u then user_resetMonthlyUsage env now u else u)
      in (if db_ok then Inr () else Inl DbError, u'))"

definition user_incrementUsage ::
  "environment \<Rightarrow> bool \<Rightarrow> int \<Rightarrow> user \<Rightarrow> (js_error + unit) \<times> user" where
  "user_incrementUsage env db_ok now u =
     user_save env db_ok now
       (u\<lparr>user_total_requests := user_total_requests u + 1,
          user_monthly_requests := user_monthly_requests u + 1,
          last_request := Some now\<rparr>)"

definition canMakeRequest :: "user \<Rightarrow> bool" where
  "canMakeRequest u =
     (if user_status u \<noteq> ''active'' then False
      else if limit_monthly_requests u = - 1 then True
      else user_monthly_requests u < limit_monthly_requests u)"

definition remainingRequests :: "user \<Rightarrow> int" where
  "remainingRequests u = max 0 (limit_monthly_requests u - user_monthly_requests u)"

subsection \<open>ApiKey methods\<close>

definition apiKey_resetMonthlyUsage :: "environment \<Rightarrow> int \<Rightarrow> apiKey \<Rightarrow> apiKey" where
  "apiKey_resetMonthlyUsage env now k =
     k\<lparr>monthly_requests := 0, monthly_reset_date := nextReset env now\<rparr>"

definition apiKey_save :: "environment \<Rightarrow> bool \<Rightarrow> int \<Rightarrow> apiKey \<Rightarrow> (js_error + unit) \<times> apiKey" where
  "apiKey_save env db_ok now k =
     (let k1 = (if key k = [] then k\<lparr>key := generatedKey env\<rparr> else k);
          k2 = (if now \<ge> monthly_reset_date k1 then apiKey_resetMonthlyUsage env now k1 else k1);
          k3 = (if endpoints k2 = [] then k2\<lparr>endpoints := [''facts'']\<rparr> else k2)
      in (if db_ok then Inr () else Inl DbError, k3))"

fun bump_endpoint :: "string \<Rightarrow> (string \<times> int) list \<Rightarrow> (string \<times> int) list" where
  "bump_endpoint e [] = [(e, 1)]"
| "bump_endpoint e ((e', n) # rest) =
     (if e' = e then (e', n + 1) # rest else (e', n) # bump_endpoint e rest)"

definition apiKey_incrementUsage ::
  "environment \<Rightarrow> bool \<Rightarrow> int \<Rightarrow> apiKey \<Rightarrow> string \<Rightarrow> (js_error + unit) \<times> apiKey" where
  "apiKey_incrementUsage env db_ok now k endpoint =
     apiKey_save env db_ok now
       (k\<lparr>total_requests := total_requests k + 1,
          monthly_requests := monthly_requests k + 1,
          last_used := Some now,
          popular_endpoints := bump_endpoint endpoint (popular_endpoints k)\<rparr>)"

definition recordError :: "environment \<Rightarrow> bool \<Rightarrow> int \<Rightarrow> apiKey \<Rightarrow> (js_error + unit) \<times> apiKey" where
  "recordError env db_ok now k =
     apiKey_save env db_ok now (k\<lparr>error_count := error_count k + 1\<rparr>)"

text \<open>The division is JavaScript's; for \<open>total_requests = 0\<close> it gives \<open>NaN\<close> or an
  infinity where HOL gives 0. \<open>trackRequestCompletion\<close> calls this after
  \<open>incrementUsage\<close>, when the total is at least 1 for a counter that started at 0.\<close>

definition updateResponseTime ::
  "environment \<Rightarrow> bool \<Rightarrow> int \<Rightarrow> apiKey \<Rightarrow> int \<Rightarrow> (js_error + unit) \<times> apiKey" where
  "updateResponseTime env db_ok now k responseTime =
     (let currentAvg = avg_response_time k;
          totalRequests = total_requests k
      in apiKey_save env db_ok now
           (k\<lparr>avg_response_time :=
                (currentAvg * (of_int totalRequests - 1) + of_int responseTime)
                  / of_int totalRequests\<rparr>))"

definition is_expired :: "int \<Rightarrow> apiKey \<Rightarrow> bool" where
  "is_expired now k = (case expiry k of None \<Rightarrow> False | Some e \<Rightarrow> now > e)"

definition isValidForRequest :: "int \<Rightarrow> apiKey \<Rightarrow> string option \<Rightarrow> string option \<Rightarrow> bool" where
  "isValidForRequest now k ip origin =
     (if key_status k \<noteq> ''active'' then False
      else if is_expired now k then False
      else if ip_whitelist k \<noteq> [] \<and> (case ip of None \<Rightarrow> True | Some i \<Rightarrow> i \<notin> set (ip_whitelist k))
        then False
      else if allowed_origins k \<noteq> [] \<and>
              (case origin of None \<Rightarrow> True | Some g \<Rightarrow> g \<notin> set (allowed_origins k))
        then False
      else True)"

text \<open>The \<open>toJSON\<close> transform of the ApiKey schema works on the plain object \<open>ret\<close>: its
  \<open>key\<close>, \<open>masked_key\<close> and \<open>__v\<close> properties (absent is \<open>None\<close>); the other properties
  are not touched. \<open>substring(0, 4)\<close> is \<open>take 4\<close>, \<open>substring(length - 4)\<close> is
  \<open>drop (length - 4)\<close>.\<close>

record apiKey_json =
  json_key :: "string option"
  masked_key :: "string option"
  json_v :: "int option"

definition transform :: "apiKey_json \<Rightarrow> apiKey_json" where
  "transform ret =
     (let ret1 =
        (case json_key ret of
           None \<Rightarrow> ret
         | Some k \<Rightarrow>
             if k \<noteq> [] \<and> length k > 8
             then ret\<lparr>masked_key := Some (take 4 k @ ''...'' @ drop (length k - 4) k),
                      json_key := None\<rparr>
             else ret)
      in ret1\<lparr>json_v := None\<rparr>)"

section \<open>The database\<close>

text \<open>The collections the modelled code queries. A query against a database that is down
  rejects.\<close>

record database =
  db_up :: bool
  apiKeys :: "apiKey list"
  users :: "user list"

text \<open>\<open>findByKey\<close>: \<open>findOne({ key, status: 'active' }).populate('userId')\<close>. The result
  is the document together with its populated user (null when the user is gone).\<close>

definition findByKey :: "database \<Rightarrow> string \<Rightarrow> js_error + (apiKey \<times> user option) option" where
  "findByKey db k =
     (if \<not> db_up db then Inl DbError
      else Inr (case find (\<lambda>r. key r = k \<and> key_status r = ''active'') (apiKeys db) of
                  None \<Rightarrow> None
                | Some r \<Rightarrow> Some (r, find (\<lambda>u. user_id u = userId r) (users db))))"

section \<open>The rate limiter: \<open>middleware/rateLimiter.js\<close>\<close>

record rate_limit =
  rl_max :: int
  windowMinutes :: int

text \<open>\<open>getRateLimitForUser\<close>. The override counts when it is truthy (present and not 0).
  Reading \<open>user.plan\<close> of a null user is a \<open>TypeError\<close>; the override branch returns
  before that read.\<close>

definition getRateLimitForUser :: "user option \<Rightarrow> apiKey \<Rightarrow> js_error + rate_limit" where
  "getRateLimitForUser u k =
     (case rate_limit_override k of
        Some n \<Rightarrow>
          if n \<noteq> 0 then Inr \<lparr>rl_max = n, windowMinutes = 15\<rparr>
          else (case u of
                  None \<Rightarrow> Inl TypeError
                | Some usr \<Rightarrow>
                    Inr (if plan usr = ''premium'' then \<lparr>rl_max = 1000, windowMinutes = 15\<rparr>
                         else if plan usr = ''platinum'' then \<lparr>rl_max = 10000, windowMinutes = 15\<rparr>
                         else \<lparr>rl_max = 100, windowMinutes = 15\<rparr>))
      | None \<Rightarrow>
          (case u of
             None \<Rightarrow> Inl TypeError
           | Some usr \<Rightarrow>
               Inr (if plan usr = ''premium'' then \<lparr>rl_max = 1000, windowMinutes = 15\<rparr>
                    else if plan usr = ''platinum'' then \<lparr>rl_max = 10000, windowMinutes = 15\<rparr>
                    else \<lparr>rl_max = 100, windowMinutes = 15\<rparr>)))"

text \<open>\<open>windowStart\<close> is \<open>new Date(year, month, date, hours, floor(minutes / 15) * 15)\<close>: the
  current time cut down to the quarter of an hour of the local calendar. For a local time
  whose offset from UTC is a multiple of 15 minutes and does not change inside the quarter,
  that is the time rounded down to a multiple of 900000 ms, which is what the model
  computes.\<close>

definition windowStart :: "int \<Rightarrow> int" where
  "windowStart now = now - now mod (15 * 60 * 1000)"

text \<open>The cache key \<open>rate_limit:${keyId}:${windowStart.getTime()}\<close> is kept as the pair
  of its two variable parts.\<close>

type_synonym rl_key = "string \<times> int"

record rl_headers =
  hdr_limit :: int
  hdr_remaining :: int
  hdr_reset :: int

record rl_body =
  current_usage :: int
  limit :: int
  window_minutes :: int
  reset_time :: int
  body_plan :: string
  upgrade_url :: "string option"

datatype rl_outcome = Next "rl_headers option" | Res429 rl_body

record rl_request =
  req_user :: "user option"
  req_apiKey :: "apiKey option"

text \<open>\<open>customRateLimit\<close> up to its first \<open>await\<close> (lines 61 to 68): the key and the count
  read from the cache, \<open>requestCount ? parseInt(requestCount) : 0\<close>.\<close>

definition rl_lookup ::
  "int \<Rightarrow> (rl_key, int) RedisConnection \<Rightarrow> apiKey \<Rightarrow> (js_error + int) \<times> (rl_key, int) RedisConnection" where
  "rl_lookup now conn k =
     (case cache_get now conn (key_id k, windowStart now) of
        (Inl e, conn1) \<Rightarrow> (Inl e, conn1)
      | (Inr None, conn1) \<Rightarrow> (Inr 0, conn1)
      | (Inr (Some n), conn1) \<Rightarrow> (Inr n, conn1))"

text \<open>\<open>customRateLimit\<close> after the read (lines 70 to 106), with the count it read. Any
  exception ends in the \<open>catch\<close>, which calls \<open>next()\<close>: the request goes on without
  rate-limit headers.\<close>

definition rl_continue ::
  "int \<Rightarrow> int \<Rightarrow> (rl_key, int) RedisConnection \<Rightarrow> rl_request \<Rightarrow> apiKey \<Rightarrow> int
     \<Rightarrow> rl_outcome \<times> (rl_key, int) RedisConnection" where
  "rl_continue cacheTtl now conn req k requestCount =
     (case getRateLimitForUser (req_user req) k of
        Inl e \<Rightarrow> (Next None, conn)
      | Inr rateLimit \<Rightarrow>
          if requestCount \<ge> rl_max rateLimit then
            (case req_user req of
               None \<Rightarrow> (Next None, conn)
             | Some u \<Rightarrow>
                 (Res429 \<lparr>current_usage = requestCount,
                          limit = rl_max rateLimit,
                          window_minutes = windowMinutes rateLimit,
                          reset_time = windowStart now + windowMinutes rateLimit * 60 * 1000,
                          body_plan = plan u,
                          upgrade_url = (if plan u = ''basic'' then Some ''/upgrade'' else None)\<rparr>,
                  conn))
          else
            (case cache_increment cacheTtl now conn (key_id k, windowStart now)
                    (Some (windowMinutes rateLimit * 60)) of
               (Inl e, conn2) \<Rightarrow> (Next None, conn2)
             | (Inr r, conn2) \<Rightarrow>
                 (Next (Some \<lparr>hdr_limit = rl_max rateLimit,
                              hdr_remaining = max 0 (rl_max rateLimit - requestCount - 1),
                              hdr_reset = windowStart now + windowMinutes rateLimit * 60 * 1000\<rparr>),
                  conn2)))"

definition customRateLimit ::
  "int \<Rightarrow> int \<Rightarrow> (rl_key, int) RedisConnection \<Rightarrow> rl_request
     \<Rightarrow> rl_outcome \<times> (rl_key, int) RedisConnection" where
  "customRateLimit cacheTtl now conn req =
     (case req_apiKey req of
        None \<Rightarrow> (Next None, conn)
      | Some k \<Rightarrow>
          (case rl_lookup now conn k of
             (Inl e, conn1) \<Rightarrow> (Next None, conn1)
           | (Inr requestCount, conn1) \<Rightarrow> rl_continue cacheTtl now conn1 req k requestCount))"

text \<open>Requests of one caller handled one after the other, at the given times.\<close>

fun serve ::
  "int \<Rightarrow> (rl_key, int) RedisConnection \<Rightarrow> rl_request \<Rightarrow> int list
     \<Rightarrow> rl_outcome list \<times> (rl_key, int) RedisConnection" where
  "serve cacheTtl conn req [] = ([], conn)"
| "serve cacheTtl conn req (t # ts) =
     (case customRateLimit cacheTtl t conn req of
        (out, conn1) \<Rightarrow>
          (case serve cacheTtl conn1 req ts of
             (outs, conn2) \<Rightarrow> (out # outs, conn2)))"

text \<open>Requests of one caller handled concurrently. The handlers interleave at their
  \<open>await\<close>s; in the schedule modelled here all \<open>n\<close> handlers finish their read before the
  first of them goes on.\<close>

fun lookups ::
  "int \<Rightarrow> (rl_key, int) RedisConnection \<Rightarrow> apiKey \<Rightarrow> nat
     \<Rightarrow> int list \<times> (rl_key, int) RedisConnection" where
  "lookups now conn k 0 = ([], conn)"
| "lookups now conn k (Suc n) =
     (case rl_lookup now conn k of
        (r, conn1) \<Rightarrow>
          (case lookups now conn1 k n of
             (rs, conn2) \<Rightarrow> ((case r of Inl e \<Rightarrow> 0 | Inr c \<Rightarrow> c) # rs, conn2)))"

fun continues ::
  "int \<Rightarrow> int \<Rightarrow> (rl_key, int) RedisConnection \<Rightarrow> rl_request \<Rightarrow> apiKey \<Rightarrow> int list
     \<Rightarrow> rl_outcome list \<times> (rl_key, int) RedisConnection" where
  "continues cacheTtl now conn req k [] = ([], conn)"
| "continues cacheTtl now conn req k (c # cs) =
     (case rl_continue cacheTtl now conn req k c of
        (out, conn1) \<Rightarrow>
          (case continues cacheTtl now conn1 req k cs of
             (outs, conn2) \<Rightarrow> (out # outs, conn2)))"

definition race ::
  "int \<Rightarrow> int \<Rightarrow> (rl_key, int) RedisConnection \<Rightarrow> rl_request \<Rightarrow> apiKey \<Rightarrow> nat
     \<Rightarrow> rl_outcome list \<times> (rl_key, int) RedisConnection" where
  "race cacheTtl now conn req k n =
     (case lookups now conn k n of
        (reads, conn1) \<Rightarrow> continues cacheTtl now conn1 req k reads)"

text \<open>The test-and-increment of the specification, for comparison: one step that compares
  the counter with the limit and adds one when it is below.\<close>

definition spec_checkAndReserve :: "int \<Rightarrow> int \<Rightarrow> bool \<times> int" where
  "spec_checkAndReserve lmt count = (if count < lmt then (True, count + 1) else (False, count))"

fun is_denied :: "rl_outcome \<Rightarrow> bool" where
  "is_denied (Res429 b) = True"
| "is_denied (Next h) = False"

text \<open>The count a request at time \<open>now\<close> would read for the key of its window.\<close>

definition counted :: "int \<Rightarrow> (rl_key, int) RedisConnection \<Rightarrow> apiKey \<Rightarrow> int" where
  "counted now conn k =
     (case client conn of
        None \<Rightarrow> 0
      | Some c \<Rightarrow> (case live now (entries c (key_id k, windowStart now)) of None \<Rightarrow> 0 | Some n \<Rightarrow> n))"

text \<open>A connection that is ready and whose client answers every command.\<close>

definition healthy :: "('k, 'v) RedisConnection \<Rightarrow> bool" where
  "healthy conn =
     (isConnectionReady conn \<and> (case client conn of None \<Rightarrow> False | Some c \<Rightarrow> \<forall>n. \<not> faults c n))"

section \<open>Authentication and usage tracking: \<open>middleware/auth.js\<close>\<close>

text \<open>JavaScript truthiness of a string that may be undefined, and \<open>a || b\<close> on such
  strings.\<close>

definition truthy :: "string option \<Rightarrow> bool" where
  "truthy s = (case s of None \<Rightarrow> False | Some t \<Rightarrow> t \<noteq> [])"

definition js_or :: "string option \<Rightarrow> string option \<Rightarrow> string option" where
  "js_or a b = (if truthy a then a else b)"

text \<open>\<open>String.prototype.replace\<close> with a string pattern replaces the first occurrence.\<close>

fun replace_first :: "string \<Rightarrow> string \<Rightarrow> string \<Rightarrow> string" where
  "replace_first pat rep [] = (if pat = [] then rep else [])"
| "replace_first pat rep (c # cs) =
     (if take (length pat) (c # cs) = pat then rep @ drop (length pat) (c # cs)
      else c # replace_first pat rep cs)"

record auth_request =
  x_api_key :: "string option"
  authorization :: "string option"
  req_ip :: "string option"
  remoteAddress :: "string option"
  origin_header :: "string option"
  referer_header :: "string option"

datatype auth_outcome =
    AuthRejected nat string
  | LimitExceeded int int
  | AuthNext user apiKey "string option"

definition presented :: "auth_request \<Rightarrow> string option" where
  "presented req =
     js_or (x_api_key req) (map_option (replace_first ''Bearer '' []) (authorization req))"

text \<open>\<open>apiKeyAuth\<close>. \<open>AuthRejected status error_code\<close> is \<open>res.status(status).json(...)\<close>,
  \<open>LimitExceeded\<close> the 429 answer with \<open>remaining_requests\<close> and \<open>reset_date\<close>, \<open>AuthNext\<close>
  the call of \<open>next()\<close> with \<open>req.user\<close>, \<open>req.apiKey\<close> and \<open>req.clientIP\<close> attached. The
  middleware only reads the database; the database is returned as it finds it.\<close>

definition apiKeyAuth :: "int \<Rightarrow> database \<Rightarrow> auth_request \<Rightarrow> auth_outcome \<times> database" where
  "apiKeyAuth now db req =
     (case presented req of
        None \<Rightarrow> (AuthRejected 401 ''MISSING_API_KEY'', db)
      | Some apiKey \<Rightarrow>
          if apiKey = [] then (AuthRejected 401 ''MISSING_API_KEY'', db)
          else
            (case findByKey db apiKey of
               Inl e \<Rightarrow> (AuthRejected 500 ''AUTH_ERROR'', db)
             | Inr None \<Rightarrow> (AuthRejected 403 ''INVALID_API_KEY'', db)
             | Inr (Some (apiKeyRecord, populated)) \<Rightarrow>
                 (let clientIP = js_or (req_ip req) (remoteAddress req);
                      origin = js_or (origin_header req) (referer_header req)
                  in if \<not> isValidForRequest now apiKeyRecord clientIP origin
                     then (AuthRejected 403 ''ACCESS_DENIED'', db)
                     else
                       (case populated of
                          None \<Rightarrow> (AuthRejected 403 ''INACTIVE_ACCOUNT'', db)
                        | Some u \<Rightarrow>
                            if user_status u \<noteq> ''active''
                            then (AuthRejected 403 ''INACTIVE_ACCOUNT'', db)
                            else if \<not> canMakeRequest u
                            then (LimitExceeded (remainingRequests u) (user_monthly_reset_date u), db)
                            else (AuthNext u apiKeyRecord clientIP, db)))))"

fun auth_status :: "auth_outcome \<Rightarrow> nat option" where
  "auth_status (AuthRejected s c) = Some s"
| "auth_status (LimitExceeded r d) = Some 429"
| "auth_status (AuthNext u k ip) = None"

fun auth_error_code :: "auth_outcome \<Rightarrow> string option" where
  "auth_error_code (AuthRejected s c) = Some c"
| "auth_error_code (LimitExceeded r d) = Some ''LIMIT_EXCEEDED''"
| "auth_error_code (AuthNext u k ip) = None"

text \<open>\<open>trackRequestCompletion\<close>, on the documents attached to the request. \<open>db_ok i\<close> tells
  whether the write of the \<open>i\<close>-th \<open>save\<close> of the function succeeds (0: the user's, 1 and 2:
  the key's in \<open>incrementUsage\<close> and \<open>updateResponseTime\<close>, 3: the key's in
  \<open>recordError\<close>). A rejected \<open>save\<close> ends in the \<open>catch\<close>, which logs; the steps after it
  are skipped. The result is the pair of documents as the function leaves them.\<close>

record track_request =
  t_user :: "user option"
  t_apiKey :: "apiKey option"
  requestStartTime :: "int option"
  route_path :: "string option"
  req_path :: string

definition trackRequestCompletion ::
  "environment \<Rightarrow> (nat \<Rightarrow> bool) \<Rightarrow> int \<Rightarrow> track_request \<Rightarrow> int \<Rightarrow> user option \<times> apiKey option" where
  "trackRequestCompletion env db_ok now req statusCode =
     (let responseTime =
            now - (case requestStartTime req of
                     None \<Rightarrow> now
                   | Some t \<Rightarrow> if t \<noteq> 0 then t else now);
          endpoint = (case route_path req of
                        None \<Rightarrow> req_path req
                      | Some p \<Rightarrow> if p \<noteq> [] then p else req_path req);
          step1 = (case t_user req of
                     None \<Rightarrow> (Inr (), None)
                   | Some u \<Rightarrow>
                       if statusCode < 400
                       then (case user_incrementUsage env (db_ok 0) now u of (r, u') \<Rightarrow> (r, Some u'))
                       else (Inr (), Some u))
      in case step1 of
           (Inl e, u1) \<Rightarrow> (u1, t_apiKey req)
         | (Inr x, u1) \<Rightarrow>
             (case t_apiKey req of
                None \<Rightarrow> (u1, None)
              | Some k \<Rightarrow>
                  if statusCode < 400 then
                    (case apiKey_incrementUsage env (db_ok 1) now k endpoint of
                       (Inl e, k1) \<Rightarrow> (u1, Some k1)
                     | (Inr y, k1) \<Rightarrow>
                         (case updateResponseTime env (db_ok 2) now k1 responseTime of
                            (r, k2) \<Rightarrow> (u1, Some k2)))
                  else
                    (case recordError env (db_ok 3) now k of
                       (r, k1) \<Rightarrow> (u1, Some k1))))"

section \<open>The fact service: \<open>services/factService.js\<close> and \<open>services/aiService.js\<close>\<close>

text \<open>A fact as a plain object. \<open>fact_id\<close> is \<open>_id\<close> (absent on a generated fact that was
  not read back from the database); an absent \<open>ai_generated\<close> or \<open>verified\<close> is false.\<close>

record fact =
  fact_id :: "string option"
  fact_text :: string
  category :: string
  source :: string
  verified :: bool
  ai_generated :: bool

text \<open>What a request does to its collaborators, in order: the calls of the cache layer, the
  queries and writes of the Fact collection, the calls of the text-generation service.\<close>

datatype event =
    CacheGet string
  | CacheSet string fact int
  | CacheDel string
  | StoreSample
  | StoreFindOne string bool
  | StoreSave fact
  | Generate string
  | Moderate string

record world =
  fact_cache :: "(string, fact) RedisConnection"
  db_facts :: "fact list"
  facts_up :: bool
  trace :: "event list"

record options =
  opt_category :: "string option"
  forceNew :: bool
  saveAIFacts :: "bool option"
  skipCache :: bool
  excludeAI :: bool

text \<open>The configuration, and what the outside answers: \<open>ai_reply category\<close> is the parsed
  answer of the chat completion (an error when the call throws or the response is
  unexpected), \<open>moderation_approves\<close> the verdict of \<open>moderateContent\<close>, \<open>sample_pick\<close> the
  document that \<open>$sample\<close> draws, \<open>options_json\<close> is \<open>JSON.stringify\<close> on an options object,
  \<open>new_id\<close> the \<open>_id\<close> a saved document gets.\<close>

record fs_config =
  fallbackEnabled :: bool
  contentModerationEnabled :: bool
  cfg_cacheTtl :: int
  ai_configured :: bool
  ai_reply :: "string \<Rightarrow> js_error + fact"
  moderation_approves :: "string \<Rightarrow> bool"
  sample_pick :: nat
  options_json :: "options \<Rightarrow> string"
  new_id :: string

definition logged :: "event \<Rightarrow> world \<Rightarrow> world" where
  "logged e w = w\<lparr>trace := trace w @ [e]\<rparr>"

definition cget :: "int \<Rightarrow> world \<Rightarrow> string \<Rightarrow> fact option \<times> world" where
  "cget now w k =
     (case cache_get now (fact_cache w) k of
        (r, c) \<Rightarrow> ((case r of Inl e \<Rightarrow> None | Inr v \<Rightarrow> v), logged (CacheGet k) (w\<lparr>fact_cache := c\<rparr>)))"

definition cset :: "fs_config \<Rightarrow> int \<Rightarrow> world \<Rightarrow> string \<Rightarrow> fact \<Rightarrow> int \<Rightarrow> world" where
  "cset cfg now w k v ttl =
     (case cache_set (cfg_cacheTtl cfg) now (fact_cache w) k v (Some ttl) of
        (r, c) \<Rightarrow> logged (CacheSet k v ttl) (w\<lparr>fact_cache := c\<rparr>))"

definition cdel :: "world \<Rightarrow> string \<Rightarrow> world" where
  "cdel w k =
     (case cache_del (fact_cache w) k of
        (r, c) \<Rightarrow> logged (CacheDel k) (w\<lparr>fact_cache := c\<rparr>))"

definition toLower :: "char \<Rightarrow> char" where
  "toLower c =
     (let n = (of_char c :: nat) in if 65 \<le> n \<and> n \<le> 90 then char_of (n + 32) else c)"

definition toLowerCase :: "string \<Rightarrow> string" where
  "toLowerCase s = map toLower s"

definition categories :: "string list" where
  "categories =
     [''science'', ''history'', ''technology'', ''nature'', ''space'', ''animals'',
      ''geography'', ''sports'', ''entertainment'', ''health'', ''food'', ''general'']"

definition isValidCategory :: "string \<Rightarrow> bool" where
  "isValidCategory c = (toLowerCase c \<in> set categories)"

definition validateFactData :: "fact \<Rightarrow> js_error + unit" where
  "validateFactData factData =
     (if fact_text factData = [] then Inl FactTextRequired
      else if length (fact_text factData) < 10 \<or> length (fact_text factData) > 1000
        then Inl FactTextLength
      else if category factData = [] \<or> \<not> isValidCategory (category factData)
        then Inl CategoryMustBeOneOf
      else Inr ())"

definition clearFactCaches :: "world \<Rightarrow> string \<Rightarrow> world" where
  "clearFactCaches w c =
     cdel (cdel (cdel w ''random_fact_any'') (''random_fact_'' @ c)) (''fact_category_'' @ c)"

text \<open>\<open>aiService.generateFact\<close>. Every exception inside is rethrown as
  \<open>Failed to generate AI fact\<close>.\<close>

definition generateFact ::
  "fs_config \<Rightarrow> int \<Rightarrow> world \<Rightarrow> string \<Rightarrow> options \<Rightarrow> (js_error + fact) \<times> world" where
  "generateFact cfg now w c opts =
     (if \<not> ai_configured cfg then (Inl FailedToGenerate, w)
      else
        (let cacheKey = ''ai_fact_'' @ c @ ''_'' @ options_json cfg opts
         in case cget now w cacheKey of
              (cachedFact, w1) \<Rightarrow>
                (case (if forceNew opts then None else cachedFact) of
                   Some f \<Rightarrow> (Inr f, w1)
                 | None \<Rightarrow>
                     (let w2 = logged (Generate c) w1
                      in case ai_reply cfg c of
                           Inl e \<Rightarrow> (Inl FailedToGenerate, w2)
                         | Inr factData \<Rightarrow> (Inr factData, cset cfg now w2 cacheKey factData 3600)))))"

text \<open>\<open>addFact\<close>: validation, moderation when enabled, the save, the cache clearing.\<close>

definition addFact :: "fs_config \<Rightarrow> world \<Rightarrow> fact \<Rightarrow> (js_error + fact) \<times> world" where
  "addFact cfg w factData =
     (case validateFactData factData of
        Inl e \<Rightarrow> (Inl e, w)
      | Inr u \<Rightarrow>
          (let moderate = contentModerationEnabled cfg \<and> fact_text factData \<noteq> [];
               w1 = (if moderate then logged (Moderate (fact_text factData)) w else w)
           in if moderate \<and> \<not> moderation_approves cfg (fact_text factData)
              then (Inl ContentRejected, w1)
              else
                (let newFact =
                       factData\<lparr>fact_id := Some (new_id cfg),
                                source := (if source factData = [] then ''User Submitted''
                                           else source factData)\<rparr>;
                     w2 = logged (StoreSave newFact) w1
                 in if \<not> facts_up w2 then (Inl DbError, w2)
                    else (Inr newFact,
                          clearFactCaches (w2\<lparr>db_facts := db_facts w2 @ [newFact]\<rparr>)
                            (category factData)))))"

text \<open>\<open>getFactByCategory\<close>. \<open>Fact.findOne\<close> casts its filter through the schema, whose
  \<open>category\<close> path is declared \<open>lowercase: true\<close>: the stored category is compared with the
  lower-cased argument. The cache key is built from the argument as it was passed.\<close>

definition getFactByCategory ::
  "fs_config \<Rightarrow> int \<Rightarrow> world \<Rightarrow> string \<Rightarrow> options \<Rightarrow> (js_error + fact) \<times> world" where
  "getFactByCategory cfg now w c opts =
     (if \<not> isValidCategory c then (Inl (InvalidCategory c), w)
      else
        (let cacheKey = ''fact_category_'' @ c;
             looked = (if skipCache opts then (None, w) else cget now w cacheKey)
         in case looked of
              (Some cachedFact, w1) \<Rightarrow> (Inr cachedFact, w1)
            | (None, w1) \<Rightarrow>
                (let w2 = logged (StoreFindOne c (excludeAI opts)) w1
                 in if \<not> facts_up w2 then (Inl DbError, w2)
                    else
                      (case find (\<lambda>f. category f = toLowerCase c \<and> verified f \<and>
                                       (if excludeAI opts then \<not> ai_generated f else True))
                              (db_facts w2) of
                         None \<Rightarrow>
                           if fallbackEnabled cfg \<and> \<not> excludeAI opts then
                             (case generateFact cfg now w2 c opts of
                                (Inl e, w3) \<Rightarrow> (Inl e, w3)
                              | (Inr aiFact, w3) \<Rightarrow> (Inr aiFact, cset cfg now w3 cacheKey aiFact 600))
                           else (Inl (NoFactsForCategory c), w2)
                       | Some f \<Rightarrow> (Inr f, cset cfg now w2 cacheKey f 1800)))))"

text \<open>\<open>getRandomFact\<close>, in the three steps of its body: the database (lines 30 to 37), the
  AI fallback (lines 39 to 53), and the whole function with the cache around them.\<close>

definition randomFact_database ::
  "fs_config \<Rightarrow> int \<Rightarrow> world \<Rightarrow> options \<Rightarrow> (js_error + fact option) \<times> world" where
  "randomFact_database cfg now w opts =
     (if truthy (opt_category opts) then
        (case getFactByCategory cfg now w (case opt_category opts of None \<Rightarrow> [] | Some c \<Rightarrow> c)
                \<lparr>opt_category = None, forceNew = False, saveAIFacts = None,
                 skipCache = True, excludeAI = False\<rparr> of
           (Inl e, w1) \<Rightarrow> (Inl e, w1)
         | (Inr f, w1) \<Rightarrow> (Inr (Some f), w1))
      else
        (let w1 = logged StoreSample w
         in if \<not> facts_up w1 then (Inl DbError, w1)
            else if db_facts w1 = [] then (Inr None, w1)
            else (Inr (Some (db_facts w1 ! (sample_pick cfg mod length (db_facts w1)))), w1)))"

definition randomFact_fallback ::
  "fs_config \<Rightarrow> int \<Rightarrow> world \<Rightarrow> options \<Rightarrow> (js_error + fact) \<times> world" where
  "randomFact_fallback cfg now w opts =
     (case generateFact cfg now w
             (if truthy (opt_category opts)
              then (case opt_category opts of None \<Rightarrow> [] | Some c \<Rightarrow> c) else ''general'') opts of
        (Inl e, w1) \<Rightarrow> (Inl e, w1)
      | (Inr f, w1) \<Rightarrow>
          if saveAIFacts opts \<noteq> Some False then
            (case addFact cfg w1 (f\<lparr>source := ''AI Generated'', verified := False,
                                    ai_generated := True\<rparr>) of
               (Inl e, w2) \<Rightarrow> (Inl e, w2)
             | (Inr saved, w2) \<Rightarrow> (Inr f, w2))
          else (Inr f, w1))"

definition getRandomFact ::
  "fs_config \<Rightarrow> int \<Rightarrow> world \<Rightarrow> options \<Rightarrow> (js_error + fact) \<times> world" where
  "getRandomFact cfg now w opts =
     (let cacheKey = ''random_fact_'' @
            (if truthy (opt_category opts)
             then (case opt_category opts of None \<Rightarrow> [] | Some c \<Rightarrow> c) else ''any'')
      in case cget now w cacheKey of
           (cachedFact, w1) \<Rightarrow>
             (case (if forceNew opts then None else cachedFact) of
                Some f \<Rightarrow> (Inr f, w1)
              | None \<Rightarrow>
                  (case randomFact_database cfg now w1 opts of
                     (Inl e, w2) \<Rightarrow> (Inl e, w2)
                   | (Inr found, w2) \<Rightarrow>
                       (case (case found of
                                Some f \<Rightarrow> (Inr (Some f), w2)
                              | None \<Rightarrow>
                                  if fallbackEnabled cfg then
                                    (case randomFact_fallback cfg now w2 opts of
                                       (Inl e, w3) \<Rightarrow> (Inl e, w3)
                                     | (Inr f, w3) \<Rightarrow> (Inr (Some f), w3))
                                  else (Inr None, w2)) of
                          (Inl e, w3) \<Rightarrow> (Inl e, w3)
                        | (Inr None, w3) \<Rightarrow> (Inl NoFactsAvailable, w3)
                        | (Inr (Some f), w3) \<Rightarrow> (Inr f, cset cfg now w3 cacheKey f 300)))))"

text \<open>\<open>FactController.getRandomFact\<close>. Every fact the service returns is a plain object
  (from \<open>JSON.parse\<close>, \<open>aggregate\<close>, \<open>lean()\<close> or the AI adapter), which has no
  \<open>incrementViews\<close> method: for a fact with an \<open>_id\<close> the call is a \<open>TypeError\<close>, which the
  \<open>catch\<close> hands to \<open>next\<close>. \<open>Res200 data source cached\<close> is the 200 answer with
  \<open>meta.source\<close> and \<open>meta.cached\<close>.\<close>

record query =
  q_category :: "string option"
  force_new :: "string option"
  ai_fallback :: "string option"

datatype response = Res200 fact string bool | NextError js_error

definition controller_getRandomFact ::
  "fs_config \<Rightarrow> int \<Rightarrow> world \<Rightarrow> query \<Rightarrow> response \<times> world" where
  "controller_getRandomFact cfg now w q =
     (let opts = \<lparr>opt_category = map_option toLowerCase (q_category q),
                  forceNew = (force_new q = Some ''true''),
                  saveAIFacts = Some (ai_fallback q \<noteq> Some ''false''),
                  skipCache = False, excludeAI = False\<rparr>
      in case getRandomFact cfg now w opts of
           (Inl e, w1) \<Rightarrow> (NextError e, w1)
         | (Inr f, w1) \<Rightarrow>
             if truthy (fact_id f) then (NextError TypeError, w1)
             else (Res200 f (if ai_generated f then ''ai'' else ''database'') False, w1))"

text \<open>What the cache holds under a key after a request: the value and its expiry
  instant.\<close>

definition cached_entry :: "world \<Rightarrow> string \<Rightarrow> (fact \<times> int option) option" where
  "cached_entry w k = (case client (fact_cache w) of None \<Rightarrow> None | Some c \<Rightarrow> entries c k)"

text \<open>\<open>recorded conn k w n\<close>: the connection is healthy and every request of key \<open>k\<close> in
  the window that starts at \<open>w\<close> reads the count \<open>n\<close>.\<close>

definition recorded :: "(rl_key, int) RedisConnection \<Rightarrow> apiKey \<Rightarrow> int \<Rightarrow> int \<Rightarrow> bool" where
  "recorded conn k w n = (healthy conn \<and> (\<forall>t. windowStart t = w \<longrightarrow> counted t conn k = n))"

section \<open>Concrete inputs\<close>

definition ex_conn :: "(rl_key, int) RedisConnection" where
  "ex_conn = \<lparr>client = Some \<lparr>client_status = ''ready'', faults = (\<lambda>n. False), issued = 0,
                               entries = (\<lambda>x. None)\<rparr>, isConnected = True\<rparr>"

definition ex_user :: user where
  "ex_user = \<lparr>user_id = ''u1'', plan = ''basic'', user_status = ''active'',
              limit_monthly_requests = 1000, features = [''basic_facts''],
              user_total_requests = 0, user_monthly_requests = 0, last_request = None,
              user_monthly_reset_date = 5000000000\<rparr>"

definition ex_key :: apiKey where
  "ex_key = \<lparr>key_id = ''k1'', key = ''rfg_abc_0123456789'', key_status = ''active'', userId = ''u1'',
             total_requests = 0, monthly_requests = 5, last_used = None,
             monthly_reset_date = 5000000000, endpoints = [''facts''],
             rate_limit_override = Some 2, ip_whitelist = [], allowed_origins = [],
             expiry = None, popular_endpoints = [], error_count = 0, avg_response_time = 0\<rparr>"

definition ex_req :: rl_request where
  "ex_req = \<lparr>req_user = Some ex_user, req_apiKey = Some ex_key\<rparr>"

definition down_conn :: "(string, string) RedisConnection" where
  "down_conn = \<lparr>client = None, isConnected = False\<rparr>"

definition failing_conn :: "(string, string) RedisConnection" where
  "failing_conn = \<lparr>client = Some \<lparr>client_status = ''ready'', faults = (\<lambda>n. True), issued = 0,
                                    entries = (\<lambda>x. None)\<rparr>, isConnected = True\<rparr>"

definition ex_key1 :: apiKey where
  "ex_key1 = ex_key\<lparr>rate_limit_override := Some 1\<rparr>"

definition ex_req1 :: rl_request where
  "ex_req1 = \<lparr>req_user = Some ex_user, req_apiKey = Some ex_key1\<rparr>"

definition ex_json :: apiKey_json where
  "ex_json = \<lparr>json_key = Some ''rfg_abc_0123456789'', masked_key = None, json_v = Some 0\<rparr>"

definition ex_json_dots :: apiKey_json where
  "ex_json_dots = \<lparr>json_key = Some ''abcd...wxyz'', masked_key = None, json_v = Some 0\<rparr>"

definition ex_env :: environment where
  "ex_env = \<lparr>nextReset = (\<lambda>t. t + 2592000000), generatedKey = ''rfg_generated''\<rparr>"

definition ex_key_stale :: apiKey where
  "ex_key_stale = ex_key\<lparr>monthly_reset_date := 100\<rparr>"

definition ex_track :: track_request where
  "ex_track = \<lparr>t_user = Some ex_user, t_apiKey = Some ex_key_stale, requestStartTime = Some 150,
               route_path = Some ''/random'', req_path = ''/api/v1/facts/random''\<rparr>"

definition ex_track_fresh :: track_request where
  "ex_track_fresh = \<lparr>t_user = Some ex_user, t_apiKey = Some ex_key, requestStartTime = Some 150,
               route_path = Some ''/random'', req_path = ''/api/v1/facts/random''\<rparr>"

definition ex_key_revoked :: apiKey where
  "ex_key_revoked = ex_key\<lparr>key_status := ''revoked''\<rparr>"

definition ex_key_expired :: apiKey where
  "ex_key_expired = ex_key\<lparr>expiry := Some 50\<rparr>"

definition ex_db_revoked :: database where
  "ex_db_revoked = \<lparr>db_up = True, apiKeys = [ex_key_revoked], users = [ex_user]\<rparr>"

definition ex_db_expired :: database where
  "ex_db_expired = \<lparr>db_up = True, apiKeys = [ex_key_expired], users = [ex_user]\<rparr>"

definition ex_db_empty :: database where
  "ex_db_empty = \<lparr>db_up = True, apiKeys = [], users = [ex_user]\<rparr>"

definition ex_auth_req :: auth_request where
  "ex_auth_req = \<lparr>x_api_key = Some ''rfg_abc_0123456789'', authorization = None,
                  req_ip = Some ''10.0.0.1'', remoteAddress = None,
                  origin_header = None, referer_header = None\<rparr>"

definition ex_user_unlimited :: user where
  "ex_user_unlimited = ex_user\<lparr>plan := ''platinum'', limit_monthly_requests := - 1,
                                 user_monthly_requests := 1000000\<rparr>"

definition ex_db_unlimited :: database where
  "ex_db_unlimited = \<lparr>db_up = True, apiKeys = [ex_key], users = [ex_user_unlimited]\<rparr>"

definition ex_key_plain :: apiKey where
  "ex_key_plain = ex_key\<lparr>rate_limit_override := None\<rparr>"

definition ex_ai_fact :: fact where
  "ex_ai_fact = \<lparr>fact_id = None, fact_text = ''Honey found in old tombs is still edible.'',
                 category = ''science'', source = ''AI Generated'', verified = False,
                 ai_generated = False\<rparr>"

definition ex_db_fact :: fact where
  "ex_db_fact = \<lparr>fact_id = Some ''6512bd43d9caa6e02c990b0a'',
                 fact_text = ''Octopuses have three hearts.'',
                 category = ''science'', source = ''Encyclopedia'', verified = True,
                 ai_generated = False\<rparr>"

definition ex_cfg :: fs_config where
  "ex_cfg = \<lparr>fallbackEnabled = True, contentModerationEnabled = False, cfg_cacheTtl = 3600,
             ai_configured = True, ai_reply = (\<lambda>c. Inr (ex_ai_fact\<lparr>category := c\<rparr>)),
             moderation_approves = (\<lambda>t. True), sample_pick = 0,
             options_json = (\<lambda>opts. ''{}''), new_id = ''6512bd43d9caa6e02c990b0b''\<rparr>"

definition ex_cache :: "(string, fact) RedisConnection" where
  "ex_cache = \<lparr>client = Some \<lparr>client_status = ''ready'', faults = (\<lambda>n. False), issued = 0,
                                entries = (\<lambda>x. None)\<rparr>, isConnected = True\<rparr>"

definition ex_cache_hit :: "(string, fact) RedisConnection" where
  "ex_cache_hit = \<lparr>client = Some \<lparr>client_status = ''ready'', faults = (\<lambda>n. False), issued = 0,
                                entries = (\<lambda>x. if x = ''random_fact_any''
                                                then Some (ex_ai_fact, Some 300000) else None)\<rparr>,
                    isConnected = True\<rparr>"

definition ex_world :: world where
  "ex_world = \<lparr>fact_cache = ex_cache, db_facts = [ex_db_fact], facts_up = True, trace = []\<rparr>"

definition ex_world_empty :: world where
  "ex_world_empty = \<lparr>fact_cache = ex_cache, db_facts = [], facts_up = True, trace = []\<rparr>"

definition ex_world_hit :: world where
  "ex_world_hit = \<lparr>fact_cache = ex_cache_hit, db_facts = [ex_db_fact], facts_up = True, trace = []\<rparr>"

definition ex_opts :: options where
  "ex_opts = \<lparr>opt_category = None, forceNew = False, saveAIFacts = None, skipCache = False,
              excludeAI = False\<rparr>"

definition ex_query :: query where
  "ex_query = \<lparr>q_category = None, force_new = None, ai_fallback = None\<rparr>"

definition ex_key_b :: apiKey where
  "ex_key_b = ex_key_plain\<lparr>key_id := ''k2'', key := ''rfg_abc_9876543210''\<rparr>"

definition ex_req_a :: rl_request where
  "ex_req_a = \<lparr>req_user = Some ex_user, req_apiKey = Some ex_key_plain\<rparr>"

definition ex_req_b :: rl_request where
  "ex_req_b = \<lparr>req_user = Some ex_user, req_apiKey = Some ex_key_b\<rparr>"

definition ex_conn_flaky :: "(rl_key, int) RedisConnection" where
  "ex_conn_flaky = \<lparr>client = Some \<lparr>client_status = ''ready'', faults = (\<lambda>n. n = 5), issued = 0,
                               entries = (\<lambda>x. None)\<rparr>, isConnected = True\<rparr>"

definition ex_track_unlimited :: track_request where
  "ex_track_unlimited = \<lparr>t_user = Some ex_user_unlimited, t_apiKey = Some ex_key,
               requestStartTime = Some 150, route_path = Some ''/random'',
               req_path = ''/api/v1/facts/random''\<rparr>"

section \<open>Lemmas about the rate limiter\<close>

lemma window_bounds: "windowStart t = w \<Longrightarrow> w \<le> t \<and> t < w + 900000"
proof -
  assume a: "windowStart t = w"
  have "0 \<le> t mod 900000" "t mod 900000 < 900000" by simp_all
  with a show ?thesis unfolding windowStart_def by auto
qed

lemma window_unique: "w mod 900000 = 0 \<Longrightarrow> w \<le> t \<Longrightarrow> t < w + 900000 \<Longrightarrow> windowStart t = w"
proof -
  assume a: "w mod 900000 = 0" "w \<le> t" "t < w + 900000"
  have "t mod 900000 = (t - w) mod 900000" using a(1) by (metis mod_diff_right_eq diff_zero mod_mod_trivial)
  also have "\<dots> = t - w" using a(2,3) by simp
  finally show ?thesis unfolding windowStart_def by simp
qed

lemma cache_get_healthy:
  "healthy conn \<Longrightarrow> client conn = Some c \<Longrightarrow>
   cache_get now conn ck = (Inr (live now (entries c ck)), conn\<lparr>client := Some (tick c)\<rparr>)"
  by (simp add: healthy_def rejects_def cache_get_def client_get_def)

lemma cache_increment_healthy:
  assumes "healthy conn" "client conn = Some c" "ttl > 0"
  shows "fst (cache_increment cacheTtl now conn ck (Some ttl))
            = Inr ((case live now (entries c ck) of None \<Rightarrow> 0 | Some n \<Rightarrow> n) + 1)"
    and "healthy (snd (cache_increment cacheTtl now conn ck (Some ttl)))"
    and "client (snd (cache_increment cacheTtl now conn ck (Some ttl))) = Some c' \<Longrightarrow>
           (\<forall>k'. k' \<noteq> ck \<longrightarrow> entries c' k' = entries c k')
          \<and> entries c' ck =
              Some ((case live now (entries c ck) of None \<Rightarrow> 0 | Some n \<Rightarrow> n) + 1,
                    if (case live now (entries c ck) of None \<Rightarrow> 0 | Some n \<Rightarrow> n) = 0
                    then Some (now + ttl * 1000)
                    else (case entries c ck of None \<Rightarrow> None | Some e \<Rightarrow> snd e))"
proof -
  have nf: "\<And>n. \<not> faults c n" and rdy: "isConnectionReady conn"
    using assms(1,2) by (auto simp: healthy_def)
  show "fst (cache_increment cacheTtl now conn ck (Some ttl))
            = Inr ((case live now (entries c ck) of None \<Rightarrow> 0 | Some n \<Rightarrow> n) + 1)"
    using nf rdy assms(2,3)
    by (auto simp: cache_increment_def client_incr_def client_expire_def rejects_def tick_def live_def
          split: option.splits prod.splits if_splits)
  show "healthy (snd (cache_increment cacheTtl now conn ck (Some ttl)))"
    using nf rdy assms(2,3)
    by (auto simp: cache_increment_def client_incr_def client_expire_def rejects_def tick_def live_def
          healthy_def isConnectionReady_def
          split: option.splits prod.splits if_splits)
  show "client (snd (cache_increment cacheTtl now conn ck (Some ttl))) = Some c' \<Longrightarrow>
           (\<forall>k'. k' \<noteq> ck \<longrightarrow> entries c' k' = entries c k')
          \<and> entries c' ck =
              Some ((case live now (entries c ck) of None \<Rightarrow> 0 | Some n \<Rightarrow> n) + 1,
                    if (case live now (entries c ck) of None \<Rightarrow> 0 | Some n \<Rightarrow> n) = 0
                    then Some (now + ttl * 1000)
                    else (case entries c ck of None \<Rightarrow> None | Some e \<Rightarrow> snd e))"
    using nf rdy assms(2,3)
    by (auto simp: cache_increment_def client_incr_def client_expire_def rejects_def tick_def live_def
          split: option.splits prod.splits if_splits)
qed

lemma getRateLimit_window: "getRateLimitForUser u k = Inr rl \<Longrightarrow> windowMinutes rl = 15"
  by (auto simp: getRateLimitForUser_def split: option.splits if_splits)

lemma rl_lookup_healthy:
  "healthy conn \<Longrightarrow> client conn = Some c \<Longrightarrow>
   rl_lookup now conn k = (Inr (counted now conn k), conn\<lparr>client := Some (tick c)\<rparr>)"
  using cache_get_healthy[of conn c now "(key_id k, windowStart now)"]
  by (simp add: rl_lookup_def counted_def split: option.splits)

lemma rl_lookup_recorded:
  "recorded conn k' w n \<Longrightarrow> recorded (snd (rl_lookup now conn k)) k' w n"
  by (auto simp: recorded_def healthy_def rl_lookup_def cache_get_def client_get_def rejects_def
      isConnectionReady_def counted_def tick_def split: option.splits)

lemma rl_lookup_count:
  "healthy conn \<Longrightarrow> fst (rl_lookup now conn k) = Inr (counted now conn k)"
  by (auto simp: healthy_def rl_lookup_def cache_get_def client_get_def rejects_def
      isConnectionReady_def counted_def tick_def split: option.splits)

lemma rl_continue_deny:
  "getRateLimitForUser (req_user req) k = Inr rl \<Longrightarrow> rl_max rl \<le> cnt \<Longrightarrow> req_user req = Some u \<Longrightarrow>
   rl_continue cacheTtl now conn req k cnt =
     (Res429 \<lparr>current_usage = cnt, limit = rl_max rl, window_minutes = 15,
              reset_time = windowStart now + 900000, body_plan = plan u,
              upgrade_url = (if plan u = ''basic'' then Some ''/upgrade'' else None)\<rparr>, conn)"
  using getRateLimit_window[of "req_user req" k rl]
  by (simp add: rl_continue_def)

lemma rl_continue_allow:
  assumes "getRateLimitForUser (req_user req) k = Inr rl" "cnt < rl_max rl"
  shows "fst (rl_continue cacheTtl now conn req k cnt) =
           Next (Some \<lparr>hdr_limit = rl_max rl, hdr_remaining = max 0 (rl_max rl - cnt - 1),
                        hdr_reset = windowStart now + 900000\<rparr>)"
    and "snd (rl_continue cacheTtl now conn req k cnt) =
           snd (cache_increment cacheTtl now conn (key_id k, windowStart now) (Some 900))"
proof -
  have wm: "windowMinutes rl = 15" using assms(1) by (rule getRateLimit_window)
  have "\<exists>r. fst (cache_increment cacheTtl now conn (key_id k, windowStart now) (Some 900)) = Inr r"
    by (auto simp: cache_increment_def Let_def split: option.splits prod.splits sum.splits)
  then obtain r conn2 where r: "cache_increment cacheTtl now conn (key_id k, windowStart now) (Some 900) = (Inr r, conn2)"
    by (metis prod.collapse)
  have "rl_continue cacheTtl now conn req k cnt =
          (Next (Some \<lparr>hdr_limit = rl_max rl, hdr_remaining = max 0 (rl_max rl - cnt - 1),
                        hdr_reset = windowStart now + 900000\<rparr>), conn2)"
    unfolding rl_continue_def using assms wm r by simp
  then show "fst (rl_continue cacheTtl now conn req k cnt) =
           Next (Some \<lparr>hdr_limit = rl_max rl, hdr_remaining = max 0 (rl_max rl - cnt - 1),
                        hdr_reset = windowStart now + 900000\<rparr>)"
    and "snd (rl_continue cacheTtl now conn req k cnt) =
           snd (cache_increment cacheTtl now conn (key_id k, windowStart now) (Some 900))"
    using r by simp_all
qed

lemma increment_recorded:
  assumes "recorded conn k w n" "windowStart t = w"
  shows "recorded (snd (cache_increment cacheTtl t conn (key_id k, w) (Some 900))) k w (n + 1)"
proof -
  let ?K = "(key_id k, w)"
  let ?r = "cache_increment cacheTtl t conn ?K (Some 900)"
  from assms(1) have h: "healthy conn" by (simp add: recorded_def)
  then obtain c where c: "client conn = Some c" by (auto simp: healthy_def split: option.splits)
  have h': "healthy (snd ?r)" using cache_increment_healthy(2)[OF h c, where ttl=900] by simp
  then obtain c' where c': "client (snd ?r) = Some c'" by (auto simp: healthy_def split: option.splits)
  have cnt: "(case live t (entries c ?K) of None \<Rightarrow> 0 | Some m \<Rightarrow> m) = n"
    using assms c by (simp add: recorded_def counted_def)
  have e': "entries c' ?K = Some (n + 1, if n = 0 then Some (t + 900 * 1000)
                 else (case entries c ?K of None \<Rightarrow> None | Some e \<Rightarrow> snd e))"
    using cache_increment_healthy(3)[OF h c _ c'] cnt by simp
  have "counted t' (snd ?r) k = n + 1" if t': "windowStart t' = w" for t'
  proof -
    have b: "w \<le> t" "t' < w + 900000" using window_bounds[OF assms(2)] window_bounds[OF t'] by auto
    have old: "(case live t' (entries c ?K) of None \<Rightarrow> 0 | Some m \<Rightarrow> m) = n"
      using assms(1) c t' by (simp add: recorded_def counted_def)
    show ?thesis
    proof (cases "n = 0")
      case True
      then show ?thesis using e' c' t' b by (simp add: counted_def live_def)
    next
      case False
      then show ?thesis using e' c' t' old
        by (auto simp: counted_def live_def split: option.splits if_splits)
    qed
  qed
  then show ?thesis using h' by (simp add: recorded_def)
qed

lemma increment_frame:
  assumes "recorded conn k w' m" "windowStart t \<noteq> w'"
  shows "recorded (snd (cache_increment cacheTtl t conn (key_id k, windowStart t) (Some 900))) k w' m"
proof -
  let ?K = "(key_id k, windowStart t)"
  let ?r = "cache_increment cacheTtl t conn ?K (Some 900)"
  from assms(1) have h: "healthy conn" by (simp add: recorded_def)
  then obtain c where c: "client conn = Some c" by (auto simp: healthy_def split: option.splits)
  have h': "healthy (snd ?r)" using cache_increment_healthy(2)[OF h c, where ttl=900] by simp
  then obtain c' where c': "client (snd ?r) = Some c'" by (auto simp: healthy_def split: option.splits)
  have "entries c' (key_id k, w') = entries c (key_id k, w')"
    using cache_increment_healthy(3)[OF h c _ c'] assms(2) by simp
  then show ?thesis using assms(1) h' c c' by (simp add: recorded_def counted_def)
qed

lemma customRateLimit_unfold:
  assumes "healthy conn" "req_apiKey req = Some k"
  shows "customRateLimit cacheTtl t conn req =
           rl_continue cacheTtl t (snd (rl_lookup t conn k)) req k (counted t conn k)"
proof -
  obtain c where c: "client conn = Some c" using assms(1) by (auto simp: healthy_def split: option.splits)
  show ?thesis using rl_lookup_healthy[OF assms(1) c] assms(2) by (simp add: customRateLimit_def)
qed

lemma customRateLimit_allow:
  assumes "recorded conn k w n" "windowStart t = w" "req_apiKey req = Some k"
    "getRateLimitForUser (req_user req) k = Inr rl" "n < rl_max rl"
  shows "fst (customRateLimit cacheTtl t conn req) =
           Next (Some \<lparr>hdr_limit = rl_max rl, hdr_remaining = max 0 (rl_max rl - n - 1),
                        hdr_reset = w + 900000\<rparr>)"
    and "recorded (snd (customRateLimit cacheTtl t conn req)) k w (n + 1)"
proof -
  have h: "healthy conn" using assms(1) by (simp add: recorded_def)
  have cn: "counted t conn k = n" using assms(1,2) by (simp add: recorded_def)
  have r1: "recorded (snd (rl_lookup t conn k)) k w n" using assms(1) by (rule rl_lookup_recorded)
  show "fst (customRateLimit cacheTtl t conn req) =
           Next (Some \<lparr>hdr_limit = rl_max rl, hdr_remaining = max 0 (rl_max rl - n - 1),
                        hdr_reset = w + 900000\<rparr>)"
    using customRateLimit_unfold[OF h assms(3)] rl_continue_allow(1)[OF assms(4), of n] assms(2,5) cn
    by simp
  show "recorded (snd (customRateLimit cacheTtl t conn req)) k w (n + 1)"
    using customRateLimit_unfold[OF h assms(3)] rl_continue_allow(2)[OF assms(4), of n] assms(2,5) cn
      increment_recorded[OF r1 assms(2)]
    by simp
qed

lemma customRateLimit_deny:
  assumes "recorded conn k w n" "windowStart t = w" "req_apiKey req = Some k" "req_user req = Some u"
    "getRateLimitForUser (req_user req) k = Inr rl" "rl_max rl \<le> n"
  shows "fst (customRateLimit cacheTtl t conn req) =
           Res429 \<lparr>current_usage = n, limit = rl_max rl, window_minutes = 15,
              reset_time = w + 900000, body_plan = plan u,
              upgrade_url = (if plan u = ''basic'' then Some ''/upgrade'' else None)\<rparr>"
    and "recorded (snd (customRateLimit cacheTtl t conn req)) k w n"
proof -
  have h: "healthy conn" using assms(1) by (simp add: recorded_def)
  have cn: "counted t conn k = n" using assms(1,2) by (simp add: recorded_def)
  have r1: "recorded (snd (rl_lookup t conn k)) k w n" using assms(1) by (rule rl_lookup_recorded)
  show "fst (customRateLimit cacheTtl t conn req) =
           Res429 \<lparr>current_usage = n, limit = rl_max rl, window_minutes = 15,
              reset_time = w + 900000, body_plan = plan u,
              upgrade_url = (if plan u = ''basic'' then Some ''/upgrade'' else None)\<rparr>"
    using customRateLimit_unfold[OF h assms(3)] rl_continue_deny[OF assms(5) _ assms(4), of n] assms(2,6) cn
    by simp
  show "recorded (snd (customRateLimit cacheTtl t conn req)) k w n"
    using customRateLimit_unfold[OF h assms(3)] rl_continue_deny[OF assms(5) _ assms(4), of n] assms(2,6) cn r1
    by simp
qed

lemma customRateLimit_frame:
  assumes "recorded conn k w' m" "windowStart t \<noteq> w'" "req_apiKey req = Some k"
  shows "recorded (snd (customRateLimit cacheTtl t conn req)) k w' m"
proof -
  have h: "healthy conn" using assms(1) by (simp add: recorded_def)
  have r1: "recorded (snd (rl_lookup t conn k)) k w' m" using assms(1) by (rule rl_lookup_recorded)
  let ?c1 = "snd (rl_lookup t conn k)"
  have inc: "recorded (snd (cache_increment cacheTtl t ?c1 (key_id k, windowStart t) (Some (15 * 60)))) k w' m"
    using increment_frame[OF r1 assms(2)] by simp
  have "recorded (snd (rl_continue cacheTtl t ?c1 req k cnt)) k w' m" for cnt
    using r1 inc
    by (auto simp: rl_continue_def getRateLimitForUser_def split: sum.splits option.splits prod.splits if_splits)
  then show ?thesis using customRateLimit_unfold[OF h assms(3)] by simp
qed

lemma serve_Cons:
  "serve cacheTtl conn req (t # ts) =
      (fst (customRateLimit cacheTtl t conn req)
         # fst (serve cacheTtl (snd (customRateLimit cacheTtl t conn req)) req ts),
       snd (serve cacheTtl (snd (customRateLimit cacheTtl t conn req)) req ts))"
  by (simp split: prod.splits)

lemma serve_window:
  assumes k: "req_apiKey req = Some k" and u: "req_user req = Some u"
    and rl: "getRateLimitForUser (req_user req) k = Inr rl"
  shows "recorded conn k w n \<Longrightarrow> \<forall>t\<in>set ts. windowStart t = w \<Longrightarrow>
     length (fst (serve cacheTtl conn req ts)) = length ts \<and>
     (\<forall>i<length ts. fst (serve cacheTtl conn req ts) ! i =
        (if rl_max rl \<le> n + int i
         then Res429 \<lparr>current_usage = max n (rl_max rl), limit = rl_max rl, window_minutes = 15,
                reset_time = w + 900000, body_plan = plan u,
                upgrade_url = (if plan u = ''basic'' then Some ''/upgrade'' else None)\<rparr>
         else Next (Some \<lparr>hdr_limit = rl_max rl,
                hdr_remaining = max 0 (rl_max rl - (n + int i) - 1),
                hdr_reset = w + 900000\<rparr>))) \<and>
     recorded (snd (serve cacheTtl conn req ts)) k w
        (if rl_max rl \<le> n then n else min (rl_max rl) (n + int (length ts)))"
proof (induction ts arbitrary: conn n)
  case Nil
  then show ?case by simp
next
  case (Cons t ts)
  let ?s1 = "customRateLimit cacheTtl t conn req"
  have tw: "windowStart t = w" and rest: "\<forall>t\<in>set ts. windowStart t = w" using Cons.prems(2) by simp_all
  have sv: "serve cacheTtl conn req (t # ts) =
      (fst ?s1 # fst (serve cacheTtl (snd ?s1) req ts), snd (serve cacheTtl (snd ?s1) req ts))"
    by (rule serve_Cons)
  show ?case
  proof (cases "n < rl_max rl")
    case True
    have o1: "fst ?s1 = Next (Some \<lparr>hdr_limit = rl_max rl, hdr_remaining = max 0 (rl_max rl - n - 1),
                        hdr_reset = w + 900000\<rparr>)"
      and r1: "recorded (snd ?s1) k w (n + 1)"
      using customRateLimit_allow[OF Cons.prems(1) tw k rl True] by simp_all
    note ih = Cons.IH[OF r1 rest]
    have len: "length (fst (serve cacheTtl conn req (t # ts))) = length (t # ts)"
      using ih sv by simp
    have nth: "fst (serve cacheTtl conn req (t # ts)) ! i =
        (if rl_max rl \<le> n + int i
         then Res429 \<lparr>current_usage = max n (rl_max rl), limit = rl_max rl, window_minutes = 15,
                reset_time = w + 900000, body_plan = plan u,
                upgrade_url = (if plan u = ''basic'' then Some ''/upgrade'' else None)\<rparr>
         else Next (Some \<lparr>hdr_limit = rl_max rl,
                hdr_remaining = max 0 (rl_max rl - (n + int i) - 1),
                hdr_reset = w + 900000\<rparr>))" if "i < length (t # ts)" for i
    proof (cases i)
      case 0
      then show ?thesis using sv o1 True by simp
    next
      case (Suc j)
      then have "j < length ts" using that by simp
      then show ?thesis using ih sv Suc True
        by (simp add: max_def algebra_simps)
    qed
    have fin: "recorded (snd (serve cacheTtl conn req (t # ts))) k w
        (if rl_max rl \<le> n then n else min (rl_max rl) (n + int (length (t # ts))))"
    proof -
      have eq: "(if rl_max rl \<le> n + 1 then n + 1 else min (rl_max rl) (n + 1 + int (length ts))) =
                (if rl_max rl \<le> n then n else min (rl_max rl) (n + int (length (t # ts))))"
        using True by (auto simp: min_def)
      show ?thesis using ih sv unfolding eq[symmetric] by simp
    qed
    show ?thesis using len nth fin by blast
  next
    case False
    then have ge: "rl_max rl \<le> n" by simp
    have o1: "fst ?s1 = Res429 \<lparr>current_usage = n, limit = rl_max rl, window_minutes = 15,
              reset_time = w + 900000, body_plan = plan u,
              upgrade_url = (if plan u = ''basic'' then Some ''/upgrade'' else None)\<rparr>"
      and r1: "recorded (snd ?s1) k w n"
      using customRateLimit_deny[OF Cons.prems(1) tw k u rl ge] by simp_all
    note ih = Cons.IH[OF r1 rest]
    have len: "length (fst (serve cacheTtl conn req (t # ts))) = length (t # ts)"
      using ih sv by simp
    have nth: "fst (serve cacheTtl conn req (t # ts)) ! i =
        (if rl_max rl \<le> n + int i
         then Res429 \<lparr>current_usage = max n (rl_max rl), limit = rl_max rl, window_minutes = 15,
                reset_time = w + 900000, body_plan = plan u,
                upgrade_url = (if plan u = ''basic'' then Some ''/upgrade'' else None)\<rparr>
         else Next (Some \<lparr>hdr_limit = rl_max rl,
                hdr_remaining = max 0 (rl_max rl - (n + int i) - 1),
                hdr_reset = w + 900000\<rparr>))" if "i < length (t # ts)" for i
    proof (cases i)
      case 0
      then show ?thesis using sv o1 ge by (simp add: max_def)
    next
      case (Suc j)
      then have "j < length ts" using that by simp
      then show ?thesis using ih sv Suc ge by simp
    qed
    have fin: "recorded (snd (serve cacheTtl conn req (t # ts))) k w
        (if rl_max rl \<le> n then n else min (rl_max rl) (n + int (length (t # ts))))"
      using ih sv ge by simp
    show ?thesis using len nth fin by blast
  qed
qed

lemma serve_frame:
  assumes k: "req_apiKey req = Some k"
  shows "recorded conn k w' m \<Longrightarrow> \<forall>t\<in>set ts. windowStart t \<noteq> w' \<Longrightarrow>
     recorded (snd (serve cacheTtl conn req ts)) k w' m"
proof (induction ts arbitrary: conn)
  case Nil
  then show ?case by simp
next
  case (Cons t ts)
  have "recorded (snd (customRateLimit cacheTtl t conn req)) k w' m"
    using customRateLimit_frame[OF Cons.prems(1) _ k] Cons.prems(2) by simp
  then show ?case using Cons.IH Cons.prems(2) by (simp only: serve_Cons snd_conv) simp
qed

lemma increment_other_key:
  assumes "recorded conn k' w' m" "key_id k' \<noteq> key_id k"
  shows "recorded (snd (cache_increment cacheTtl t conn (key_id k, windowStart t) (Some 900))) k' w' m"
proof -
  let ?K = "(key_id k, windowStart t)"
  let ?r = "cache_increment cacheTtl t conn ?K (Some 900)"
  from assms(1) have h: "healthy conn" by (simp add: recorded_def)
  then obtain c where c: "client conn = Some c" by (auto simp: healthy_def split: option.splits)
  have h': "healthy (snd ?r)" using cache_increment_healthy(2)[OF h c, where ttl=900] by simp
  then obtain c' where c': "client (snd ?r) = Some c'" by (auto simp: healthy_def split: option.splits)
  have "entries c' (key_id k', x) = entries c (key_id k', x)" for x
    using cache_increment_healthy(3)[OF h c _ c'] assms(2) by simp
  then show ?thesis using assms(1) h' c c' by (simp add: recorded_def counted_def)
qed

lemma customRateLimit_other_key:
  assumes "recorded conn k' w' m" "key_id k' \<noteq> key_id k" "req_apiKey req = Some k"
  shows "recorded (snd (customRateLimit cacheTtl t conn req)) k' w' m"
proof -
  have h: "healthy conn" using assms(1) by (simp add: recorded_def)
  have r1: "recorded (snd (rl_lookup t conn k)) k' w' m" using assms(1) by (rule rl_lookup_recorded)
  let ?c1 = "snd (rl_lookup t conn k)"
  have inc: "recorded (snd (cache_increment cacheTtl t ?c1 (key_id k, windowStart t) (Some (15 * 60)))) k' w' m"
    using increment_other_key[OF r1 assms(2)] by simp
  have "recorded (snd (rl_continue cacheTtl t ?c1 req k cnt)) k' w' m" for cnt
    using r1 inc
    by (auto simp: rl_continue_def getRateLimitForUser_def split: sum.splits option.splits prod.splits if_splits)
  then show ?thesis using customRateLimit_unfold[OF h assms(3)] by simp
qed

lemma serve_other_key:
  assumes k: "req_apiKey req = Some k" and ne: "key_id k' \<noteq> key_id k"
  shows "recorded conn k' w' m \<Longrightarrow> recorded (snd (serve cacheTtl conn req ts)) k' w' m"
proof (induction ts arbitrary: conn)
  case Nil
  then show ?case by simp
next
  case (Cons t ts)
  have "recorded (snd (customRateLimit cacheTtl t conn req)) k' w' m"
    using customRateLimit_other_key[OF Cons.prems(1) ne k] by simp
  then show ?case using Cons.IH by (simp only: serve_Cons snd_conv)
qed

lemma rate_limit_positive:
  "getRateLimitForUser u k = Inr rl \<Longrightarrow> \<forall>n. rate_limit_override k = Some n \<longrightarrow> 0 \<le> n \<Longrightarrow> 0 < rl_max rl"
  by (auto simp: getRateLimitForUser_def split: option.splits if_splits)

section \<open>Lemmas about concurrent requests\<close>

lemma lookups_Suc:
  "lookups now conn k (Suc n) =
     ((case fst (rl_lookup now conn k) of Inl e \<Rightarrow> 0 | Inr c \<Rightarrow> c)
        # fst (lookups now (snd (rl_lookup now conn k)) k n),
      snd (lookups now (snd (rl_lookup now conn k)) k n))"
  by (simp split: prod.splits)

lemma continues_Cons:
  "continues cacheTtl now conn req k (c # cs) =
     (fst (rl_continue cacheTtl now conn req k c)
        # fst (continues cacheTtl now (snd (rl_continue cacheTtl now conn req k c)) req k cs),
      snd (continues cacheTtl now (snd (rl_continue cacheTtl now conn req k c)) req k cs))"
  by (simp split: prod.splits)

lemma race_unfold:
  "race cacheTtl now conn req k n =
     continues cacheTtl now (snd (lookups now conn k n)) req k (fst (lookups now conn k n))"
  by (simp add: race_def split: prod.splits)

lemma lookups_recorded:
  "recorded conn k w c \<Longrightarrow> windowStart now = w \<Longrightarrow>
   fst (lookups now conn k n) = replicate n c \<and> recorded (snd (lookups now conn k n)) k w c"
proof (induction n arbitrary: conn)
  case 0
  then show ?case by simp
next
  case (Suc n)
  have h: "healthy conn" using Suc.prems(1) by (simp add: recorded_def)
  have c: "fst (rl_lookup now conn k) = Inr c"
    using rl_lookup_count[OF h, of now k] Suc.prems by (simp add: recorded_def)
  have r: "recorded (snd (rl_lookup now conn k)) k w c" using Suc.prems(1) by (rule rl_lookup_recorded)
  show ?case using Suc.IH[OF r Suc.prems(2)] c
    by (simp only: lookups_Suc fst_conv snd_conv) simp
qed

lemma continues_allowed:
  assumes rl: "getRateLimitForUser (req_user req) k = Inr rl" and w: "windowStart now = w"
  shows "recorded conn k w c0 \<Longrightarrow> c < rl_max rl \<Longrightarrow>
     fst (continues cacheTtl now conn req k (replicate n c)) =
       replicate n (Next (Some \<lparr>hdr_limit = rl_max rl, hdr_remaining = max 0 (rl_max rl - c - 1),
                                 hdr_reset = w + 900000\<rparr>)) \<and>
     recorded (snd (continues cacheTtl now conn req k (replicate n c))) k w (c0 + int n)"
proof (induction n arbitrary: conn c0)
  case 0
  then show ?case by simp
next
  case (Suc n)
  let ?s = "rl_continue cacheTtl now conn req k c"
  have o: "fst ?s = Next (Some \<lparr>hdr_limit = rl_max rl, hdr_remaining = max 0 (rl_max rl - c - 1),
                                 hdr_reset = w + 900000\<rparr>)"
    using rl_continue_allow(1)[OF rl Suc.prems(2)] w by simp
  have r: "recorded (snd ?s) k w (c0 + 1)"
    using rl_continue_allow(2)[OF rl Suc.prems(2)] increment_recorded[OF Suc.prems(1) w] w by simp
  show ?case using Suc.IH[OF r Suc.prems(2)] o
    by (simp only: replicate_Suc continues_Cons fst_conv snd_conv) (simp add: algebra_simps)
qed

lemma race_allowed:
  assumes "getRateLimitForUser (req_user req) k = Inr rl" and "windowStart now = w"
    and "recorded conn k w c" and "c < rl_max rl"
  shows "fst (race cacheTtl now conn req k n) =
       replicate n (Next (Some \<lparr>hdr_limit = rl_max rl, hdr_remaining = max 0 (rl_max rl - c - 1),
                                 hdr_reset = w + 900000\<rparr>)) \<and>
     recorded (snd (race cacheTtl now conn req k n)) k w (c + int n)"
proof -
  have l: "fst (lookups now conn k n) = replicate n c"
    and r: "recorded (snd (lookups now conn k n)) k w c"
    using lookups_recorded[OF assms(3,2)] by simp_all
  have "race cacheTtl now conn req k n =
          continues cacheTtl now (snd (lookups now conn k n)) req k (replicate n c)"
    using l by (simp add: race_unfold)
  then show ?thesis using continues_allowed[OF assms(1,2) r assms(4)] by simp
qed

section \<open>Lemmas about usage tracking\<close>

lemma recordError_fields:
  "snd (recordError env ok now k) = k' \<Longrightarrow>
     error_count k' = error_count k + 1 \<and> total_requests k' = total_requests k \<and>
     avg_response_time k' = avg_response_time k \<and> last_used k' = last_used k \<and>
     popular_endpoints k' = popular_endpoints k \<and>
     monthly_requests k' = (if now \<ge> monthly_reset_date k then 0 else monthly_requests k)"
  by (auto simp: recordError_def apiKey_save_def apiKey_resetMonthlyUsage_def Let_def)

lemma track_success_counts_user:
  assumes "t_user rq = Some u" and "statusCode < 400" and "now < user_monthly_reset_date u"
  shows "map_option user_monthly_requests (fst (trackRequestCompletion env db_ok now rq statusCode))
           = Some (user_monthly_requests u + 1) \<and>
         map_option user_total_requests (fst (trackRequestCompletion env db_ok now rq statusCode))
           = Some (user_total_requests u + 1)"
  using assms
  by (auto simp: trackRequestCompletion_def user_incrementUsage_def user_save_def Let_def
      split: prod.splits sum.splits option.splits)

section \<open>Lemmas about authentication\<close>

lemma find_none_inactive:
  "\<forall>r\<in>set rs. key r = s \<longrightarrow> key_status r \<noteq> ''active'' \<Longrightarrow>
   find (\<lambda>r. key r = s \<and> key_status r = ''active'') rs = None"
  by (induction rs) auto

section \<open>Lemmas about the fact service\<close>

lemmas ex_fs_defs = ex_cfg_def ex_world_def ex_world_empty_def ex_world_hit_def ex_cache_def
  ex_cache_hit_def ex_opts_def ex_ai_fact_def ex_db_fact_def ex_query_def

lemmas fs_defs = getRandomFact_def getFactByCategory_def randomFact_database_def
  randomFact_fallback_def generateFact_def addFact_def validateFactData_def clearFactCaches_def
  cget_def cset_def cdel_def logged_def cache_get_def cache_set_def cache_del_def client_get_def
  client_set_def client_setex_def client_del_def isConnectionReady_def rejects_def tick_def
  live_def truthy_def isValidCategory_def toLowerCase_def toLower_def categories_def
  controller_getRandomFact_def Let_def

lemma trace_cget: "trace (snd (cget now w k)) = trace w @ [CacheGet k]"
  by (simp add: cget_def logged_def split: prod.splits)

lemma trace_cset: "trace (cset cfg now w k v ttl) = trace w @ [CacheSet k v ttl]"
  by (simp add: cset_def logged_def split: prod.splits)

lemma db_facts_cget: "db_facts (snd (cget now w k)) = db_facts w"
  by (simp add: cget_def logged_def split: prod.splits)

lemma cget_healthy:
  "healthy (fact_cache w) \<Longrightarrow> client (fact_cache w) = Some c \<Longrightarrow>
   fst (cget now w k) = live now (entries c k)"
  by (simp add: cget_def cache_get_healthy split: prod.splits)

lemma getRandomFact_hit:
  assumes "rk = ''random_fact_'' @
            (if truthy (opt_category opts)
             then (case opt_category opts of None \<Rightarrow> [] | Some x \<Rightarrow> x) else ''any'')"
    and "cget now w rk = (Some f, w1)" and "\<not> forceNew opts"
  shows "getRandomFact cfg now w opts = (Inr f, w1)"
  unfolding getRandomFact_def Let_def assms(1)[symmetric] using assms(2,3) by simp

lemma controller_labels:
  "controller_getRandomFact cfg now w q = (Res200 d src cached, w') \<Longrightarrow>
     src = (if ai_generated d then ''ai'' else ''database'') \<and> \<not> cached \<and> src \<noteq> ''cache''"
  by (auto simp: controller_getRandomFact_def Let_def split: prod.splits sum.splits if_splits)

lemma world_cget [simp]:
  "facts_up (snd (cget now w k)) = facts_up w"
  "db_facts (snd (cget now w k)) = db_facts w"
  by (simp_all add: cget_def logged_def split: prod.splits)

lemma world_logged [simp]:
  "facts_up (logged e w) = facts_up w" "db_facts (logged e w) = db_facts w"
  "trace (logged e w) = trace w @ [e]"
  by (simp_all add: logged_def)

lemma cache_logged [simp]:
  "fact_cache (logged e w) = fact_cache w" "cached_entry (logged e w) k = cached_entry w k"
  by (simp_all add: logged_def cached_entry_def)

lemma cget_cache:
  assumes "healthy (fact_cache w)"
  shows "healthy (fact_cache (snd (cget now w k)))"
    and "cached_entry (snd (cget now w k)) k' = cached_entry w k'"
  using assms
  by (auto simp: cget_def cache_get_def client_get_def healthy_def isConnectionReady_def rejects_def
      tick_def logged_def cached_entry_def split: option.splits prod.splits)

lemma cset_cache:
  assumes "healthy (fact_cache w)" and "0 < ttl"
  shows "healthy (fact_cache (cset cfg now w k v ttl))"
    and "cached_entry (cset cfg now w k v ttl) k = Some (v, Some (now + ttl * 1000))"
    and "k' \<noteq> k \<Longrightarrow> cached_entry (cset cfg now w k v ttl) k' = cached_entry w k'"
  using assms
  by (auto simp: cset_def cache_set_def client_setex_def healthy_def isConnectionReady_def rejects_def
      tick_def logged_def cached_entry_def split: option.splits prod.splits)

lemma cdel_cache:
  assumes "healthy (fact_cache w)"
  shows "healthy (fact_cache (cdel w k))"
  using assms
  by (auto simp: cdel_def cache_del_def client_del_def healthy_def isConnectionReady_def rejects_def
      tick_def logged_def split: option.splits prod.splits)

lemma cget_miss_healthy:
  assumes "healthy (fact_cache w)" and "fst (cget now w k) = None"
  obtains w1 where "cget now w k = (None, w1)" and "facts_up w1 = facts_up w"
    and "db_facts w1 = db_facts w" and "healthy (fact_cache w1)"
proof -
  have "cget now w k = (None, snd (cget now w k))" using assms(2) by (metis prod.collapse)
  then show ?thesis using that[of "snd (cget now w k)"] cget_cache(1)[OF assms(1)] by simp
qed

lemma getFactByCategory_store_hit:
  assumes "healthy (fact_cache w)" and "isValidCategory c" and "facts_up w"
    and "skipCache opts \<or> fst (cget now w (''fact_category_'' @ c)) = None"
    and "find (\<lambda>f. category f = toLowerCase c \<and> verified f \<and>
                   (if excludeAI opts then \<not> ai_generated f else True)) (db_facts w) = Some f"
  shows "fst (getFactByCategory cfg now w c opts) = Inr f"
    and "cached_entry (snd (getFactByCategory cfg now w c opts)) (''fact_category_'' @ c)
           = Some (f, Some (now + 1800 * 1000))"
    and "healthy (fact_cache (snd (getFactByCategory cfg now w c opts)))"
proof -
  define k where "k = ''fact_category_'' @ c"
  have "fst (getFactByCategory cfg now w c opts) = Inr f \<and>
        cached_entry (snd (getFactByCategory cfg now w c opts)) k = Some (f, Some (now + 1800 * 1000)) \<and>
        healthy (fact_cache (snd (getFactByCategory cfg now w c opts)))"
  proof (cases "skipCache opts")
    case True
    have h: "healthy (fact_cache (logged (StoreFindOne c (excludeAI opts)) w))" using assms(1) by simp
    show ?thesis using assms(2,3,5) True cset_cache(1,2)[OF h, of 1800 cfg now k f]
      unfolding getFactByCategory_def Let_def k_def[symmetric]
      by simp
  next
    case False
    then have "fst (cget now w k) = None" using assms(4) by (simp add: k_def)
    then obtain w1 where w1: "cget now w k = (None, w1)" "facts_up w1 = facts_up w"
      "db_facts w1 = db_facts w" "healthy (fact_cache w1)" using cget_miss_healthy[OF assms(1)] by blast
    have h: "healthy (fact_cache (logged (StoreFindOne c (excludeAI opts)) w1))" using w1(4) by simp
    show ?thesis using assms(2,3,5) False w1 cset_cache(1,2)[OF h, of 1800 cfg now k f]
      unfolding getFactByCategory_def Let_def k_def[symmetric]
      by simp
  qed
  then show "fst (getFactByCategory cfg now w c opts) = Inr f"
    and "cached_entry (snd (getFactByCategory cfg now w c opts)) (''fact_category_'' @ c)
           = Some (f, Some (now + 1800 * 1000))"
    and "healthy (fact_cache (snd (getFactByCategory cfg now w c opts)))"
    by (simp_all add: k_def)
qed

lemma generateFact_miss:
  assumes "healthy (fact_cache w)" and "ai_configured cfg"
    and "forceNew opts \<or> fst (cget now w (''ai_fact_'' @ c @ ''_'' @ options_json cfg opts)) = None"
    and "ai_reply cfg c = Inr g"
  shows "fst (generateFact cfg now w c opts) = Inr g"
    and "cached_entry (snd (generateFact cfg now w c opts)) (''ai_fact_'' @ c @ ''_'' @ options_json cfg opts)
           = Some (g, Some (now + 3600 * 1000))"
proof -
  define k where "k = ''ai_fact_'' @ c @ ''_'' @ options_json cfg opts"
  obtain r w1 where g: "cget now w k = (r, w1)" by (cases "cget now w k")
  then have h1: "healthy (fact_cache w1)" using cget_cache(1)[OF assms(1), of now k] by simp
  have h: "healthy (fact_cache (logged (Generate c) w1))" using h1 by simp
  have r: "(if forceNew opts then None else r) = None" using assms(3) g by (auto simp: k_def)
  have "fst (generateFact cfg now w c opts) = Inr g \<and>
        cached_entry (snd (generateFact cfg now w c opts)) k = Some (g, Some (now + 3600 * 1000))"
    using assms(2,4) g r cset_cache(2)[OF h, of 3600 cfg now k g]
    unfolding generateFact_def Let_def k_def[symmetric]
    by simp
  then show "fst (generateFact cfg now w c opts) = Inr g"
    and "cached_entry (snd (generateFact cfg now w c opts)) (''ai_fact_'' @ c @ ''_'' @ options_json cfg opts)
           = Some (g, Some (now + 3600 * 1000))"
    by (simp_all add: k_def)
qed

lemma generateFact_hit:
  assumes "ai_configured cfg" and "\<not> forceNew opts"
    and "fst (cget now w (''ai_fact_'' @ c @ ''_'' @ options_json cfg opts)) = Some g"
  shows "fst (generateFact cfg now w c opts) = Inr g \<and>
         trace (snd (generateFact cfg now w c opts))
           = trace w @ [CacheGet (''ai_fact_'' @ c @ ''_'' @ options_json cfg opts)]"
proof -
  define k where "k = ''ai_fact_'' @ c @ ''_'' @ options_json cfg opts"
  obtain w1 where g: "cget now w k = (Some g, w1)" using assms(3) unfolding k_def[symmetric]
    by (metis prod.collapse)
  then have t: "trace w1 = trace w @ [CacheGet k]" using trace_cget[of now w k] by simp
  show ?thesis using assms(1,2) g t
    unfolding generateFact_def Let_def k_def[symmetric] by simp
qed

lemma getRandomFact_sample_hit:
  assumes "healthy (fact_cache w)" and "\<not> truthy (opt_category opts)"
    and "forceNew opts \<or> fst (cget now w ''random_fact_any'') = None"
    and "facts_up w" and "db_facts w \<noteq> []"
  shows "fst (getRandomFact cfg now w opts) = Inr (db_facts w ! (sample_pick cfg mod length (db_facts w)))"
    and "cached_entry (snd (getRandomFact cfg now w opts)) ''random_fact_any''
           = Some (db_facts w ! (sample_pick cfg mod length (db_facts w)), Some (now + 300 * 1000))"
proof -
  define k where "k = ''random_fact_any''"
  obtain r w1 where g: "cget now w k = (r, w1)" by (cases "cget now w k")
  then have h1: "healthy (fact_cache w1)" and f1: "facts_up w1 = facts_up w" "db_facts w1 = db_facts w"
    using cget_cache(1)[OF assms(1), of now k] world_cget[of now w k] by simp_all
  have h: "healthy (fact_cache (logged StoreSample w1))" using h1 by simp
  have r: "(if forceNew opts then None else r) = None" using assms(3) g by (auto simp: k_def)
  have "fst (getRandomFact cfg now w opts) = Inr (db_facts w ! (sample_pick cfg mod length (db_facts w))) \<and>
     cached_entry (snd (getRandomFact cfg now w opts)) k
           = Some (db_facts w ! (sample_pick cfg mod length (db_facts w)), Some (now + 300 * 1000))"
    using assms(2,4,5) g r f1
      cset_cache(2)[OF h, of 300 cfg now k "db_facts w ! (sample_pick cfg mod length (db_facts w))"]
    unfolding getRandomFact_def randomFact_database_def Let_def
    by (simp add: k_def)
  then show "fst (getRandomFact cfg now w opts) = Inr (db_facts w ! (sample_pick cfg mod length (db_facts w)))"
    and "cached_entry (snd (getRandomFact cfg now w opts)) ''random_fact_any''
           = Some (db_facts w ! (sample_pick cfg mod length (db_facts w)), Some (now + 300 * 1000))"
    by (simp_all add: k_def)
qed

lemma getRandomFact_category_hit:
  assumes "healthy (fact_cache w)" and "opt_category opts = Some c" and "c \<noteq> []"
    and "forceNew opts \<or> fst (cget now w (''random_fact_'' @ c)) = None"
    and "isValidCategory c" and "facts_up w"
    and "find (\<lambda>f. category f = toLowerCase c \<and> verified f) (db_facts w) = Some f"
  shows "fst (getRandomFact cfg now w opts) = Inr f"
    and "cached_entry (snd (getRandomFact cfg now w opts)) (''random_fact_'' @ c)
           = Some (f, Some (now + 300 * 1000))"
proof -
  define k where "k = ''random_fact_'' @ c"
  define o2 where "o2 = \<lparr>opt_category = None, forceNew = False, saveAIFacts = None,
                 skipCache = True, excludeAI = False\<rparr>"
  obtain r w1 where g: "cget now w k = (r, w1)" by (cases "cget now w k")
  then have h1: "healthy (fact_cache w1)" and f1: "facts_up w1 = facts_up w" "db_facts w1 = db_facts w"
    using cget_cache(1)[OF assms(1), of now k] world_cget[of now w k] by simp_all
  have r: "(if forceNew opts then None else r) = None" using assms(4) g by (auto simp: k_def)
  have fnd: "find (\<lambda>f. category f = toLowerCase c \<and> verified f \<and>
                   (if excludeAI o2 then \<not> ai_generated f else True)) (db_facts w1) = Some f"
    using assms(7) f1 by (simp add: o2_def)
  have sk: "skipCache o2 \<or> fst (cget now w1 (''fact_category_'' @ c)) = None" by (simp add: o2_def)
  have fu: "facts_up w1" using assms(6) f1 by simp
  note sh = getFactByCategory_store_hit[OF h1 assms(5) fu sk fnd, of cfg]
  obtain w2 where w2: "getFactByCategory cfg now w1 c o2 = (Inr f, w2)" and h2: "healthy (fact_cache w2)"
    using sh(1,3) by (metis prod.collapse)
  have tr: "truthy (opt_category opts)" using assms(2,3) by (simp add: truthy_def)
  have "getRandomFact cfg now w opts = (Inr f, cset cfg now w2 k f 300)"
    using g r tr assms(2) w2
    unfolding getRandomFact_def randomFact_database_def Let_def o2_def[symmetric]
    by (simp add: k_def)
  then show "fst (getRandomFact cfg now w opts) = Inr f"
    and "cached_entry (snd (getRandomFact cfg now w opts)) (''random_fact_'' @ c)
           = Some (f, Some (now + 300 * 1000))"
    using cset_cache(2)[OF h2, of 300 cfg now k f] by (simp_all add: k_def)
qed

lemma generateFact_healthy:
  assumes "healthy (fact_cache w)"
  shows "healthy (fact_cache (snd (generateFact cfg now w c opts)))"
proof -
  define k where "k = ''ai_fact_'' @ c @ ''_'' @ options_json cfg opts"
  obtain r w1 where g: "cget now w k = (r, w1)" by (cases "cget now w k")
  then have h1: "healthy (fact_cache w1)" using cget_cache(1)[OF assms, of now k] by simp
  have h: "healthy (fact_cache (logged (Generate c) w1))" using h1 by simp
  show ?thesis using assms g h1 cset_cache(1)[OF h, of 3600 cfg now k]
    unfolding generateFact_def Let_def k_def[symmetric]
    by (auto split: option.splits sum.splits)
qed

lemma getFactByCategory_generated_copy:
  assumes "healthy (fact_cache w)" and "facts_up w"
    and "skipCache opts \<or> fst (cget now w (''fact_category_'' @ c)) = None"
    and "find (\<lambda>f. category f = toLowerCase c \<and> verified f \<and>
                   (if excludeAI opts then \<not> ai_generated f else True)) (db_facts w) = None"
    and "fst (getFactByCategory cfg now w c opts) = Inr g"
  shows "cached_entry (snd (getFactByCategory cfg now w c opts)) (''fact_category_'' @ c)
           = Some (g, Some (now + 600 * 1000))"
proof -
  define k where "k = ''fact_category_'' @ c"
  obtain w1 where w1: "(if skipCache opts then (None, w) else cget now w k) = (None, w1)"
    "facts_up w1 = facts_up w" "db_facts w1 = db_facts w" "healthy (fact_cache w1)"
  proof (cases "skipCache opts")
    case True
    then show ?thesis using that[of w] assms(1) by simp
  next
    case False
    then have "fst (cget now w k) = None" using assms(3) by (simp add: k_def)
    then obtain w0 where "cget now w k = (None, w0)" "facts_up w0 = facts_up w"
      "db_facts w0 = db_facts w" "healthy (fact_cache w0)" using cget_miss_healthy[OF assms(1)] by blast
    then show ?thesis using that[of w0] False by simp
  qed
  let ?w2 = "logged (StoreFindOne c (excludeAI opts)) w1"
  have h2: "healthy (fact_cache ?w2)" using w1(4) by simp
  obtain r3 w3 where g3: "generateFact cfg now ?w2 c opts = (r3, w3)"
    by (cases "generateFact cfg now ?w2 c opts")
  then have h3: "healthy (fact_cache w3)" using generateFact_healthy[OF h2, of cfg now c opts] by simp
  have "cached_entry (snd (getFactByCategory cfg now w c opts)) k = Some (g, Some (now + 600 * 1000))"
    using assms(2,4,5) w1 g3 cset_cache(2)[OF h3, of 600 cfg now k g]
    unfolding getFactByCategory_def Let_def k_def[symmetric]
    by (auto split: if_splits sum.splits)
  then show ?thesis by (simp add: k_def)
qed

lemma cget_miss_any:
  assumes "fst (cget now w k) = None"
  obtains w1 where "cget now w k = (None, w1)" and "facts_up w1 = facts_up w"
    and "db_facts w1 = db_facts w" and "trace w1 = trace w @ [CacheGet k]"
proof -
  have "cget now w k = (None, snd (cget now w k))" using assms by (metis prod.collapse)
  then show ?thesis using that[of "snd (cget now w k)"] trace_cget[of now w k] by simp
qed

lemma getFactByCategory_store_call:
  assumes "isValidCategory c" and "facts_up w"
    and "skipCache opts \<or> fst (cget now w (''fact_category_'' @ c)) = None"
    and "find (\<lambda>f. category f = toLowerCase c \<and> verified f \<and>
                   (if excludeAI opts then \<not> ai_generated f else True)) (db_facts w) = Some f"
  shows "fst (getFactByCategory cfg now w c opts) = Inr f"
    and "trace (snd (getFactByCategory cfg now w c opts))
           = trace w @ (if skipCache opts then [] else [CacheGet (''fact_category_'' @ c)])
               @ [StoreFindOne c (excludeAI opts), CacheSet (''fact_category_'' @ c) f 1800]"
proof -
  define k where "k = ''fact_category_'' @ c"
  have "fst (getFactByCategory cfg now w c opts) = Inr f \<and>
        trace (snd (getFactByCategory cfg now w c opts))
           = trace w @ (if skipCache opts then [] else [CacheGet k])
               @ [StoreFindOne c (excludeAI opts), CacheSet k f 1800]"
  proof (cases "skipCache opts")
    case True
    show ?thesis using assms(1,2,4) True
      unfolding getFactByCategory_def Let_def k_def[symmetric]
      by (simp add: trace_cset)
  next
    case False
    then have "fst (cget now w k) = None" using assms(3) by (simp add: k_def)
    then obtain w1 where w1: "cget now w k = (None, w1)" "facts_up w1 = facts_up w"
      "db_facts w1 = db_facts w" "trace w1 = trace w @ [CacheGet k]" using cget_miss_any by blast
    show ?thesis using assms(1,2,4) False w1
      unfolding getFactByCategory_def Let_def k_def[symmetric]
      by (simp add: trace_cset)
  qed
  then show "fst (getFactByCategory cfg now w c opts) = Inr f"
    and "trace (snd (getFactByCategory cfg now w c opts))
           = trace w @ (if skipCache opts then [] else [CacheGet (''fact_category_'' @ c)])
               @ [StoreFindOne c (excludeAI opts), CacheSet (''fact_category_'' @ c) f 1800]"
    by (simp_all add: k_def)
qed

lemma getRandomFact_sample_call:
  assumes "\<not> truthy (opt_category opts)"
    and "forceNew opts \<or> fst (cget now w ''random_fact_any'') = None"
    and "facts_up w" and "db_facts w \<noteq> []"
  shows "fst (getRandomFact cfg now w opts) = Inr (db_facts w ! (sample_pick cfg mod length (db_facts w)))"
    and "trace (snd (getRandomFact cfg now w opts))
           = trace w @ [CacheGet ''random_fact_any'', StoreSample,
                CacheSet ''random_fact_any'' (db_facts w ! (sample_pick cfg mod length (db_facts w))) 300]"
proof -
  define k where "k = ''random_fact_any''"
  obtain r w1 where g: "cget now w k = (r, w1)" by (cases "cget now w k")
  then have f1: "facts_up w1 = facts_up w" "db_facts w1 = db_facts w" "trace w1 = trace w @ [CacheGet k]"
    using world_cget[of now w k] trace_cget[of now w k] by simp_all
  have r: "(if forceNew opts then None else r) = None" using assms(2) g by (auto simp: k_def)
  have "fst (getRandomFact cfg now w opts) = Inr (db_facts w ! (sample_pick cfg mod length (db_facts w))) \<and>
     trace (snd (getRandomFact cfg now w opts))
           = trace w @ [CacheGet k, StoreSample,
                CacheSet k (db_facts w ! (sample_pick cfg mod length (db_facts w))) 300]"
    using assms(1,3,4) g r f1
    unfolding getRandomFact_def randomFact_database_def Let_def
    by (simp add: k_def trace_cset)
  then show "fst (getRandomFact cfg now w opts) = Inr (db_facts w ! (sample_pick cfg mod length (db_facts w)))"
    and "trace (snd (getRandomFact cfg now w opts))
           = trace w @ [CacheGet ''random_fact_any'', StoreSample,
                CacheSet ''random_fact_any'' (db_facts w ! (sample_pick cfg mod length (db_facts w))) 300]"
    by (simp_all add: k_def)
qed

lemma getRandomFact_category_call:
  assumes "opt_category opts = Some c" and "c \<noteq> []"
    and "forceNew opts \<or> fst (cget now w (''random_fact_'' @ c)) = None"
    and "isValidCategory c" and "facts_up w"
    and "find (\<lambda>f. category f = toLowerCase c \<and> verified f) (db_facts w) = Some f"
  shows "fst (getRandomFact cfg now w opts) = Inr f"
    and "trace (snd (getRandomFact cfg now w opts))
           = trace w @ [CacheGet (''random_fact_'' @ c), StoreFindOne c False,
                CacheSet (''fact_category_'' @ c) f 1800, CacheSet (''random_fact_'' @ c) f 300]"
proof -
  define k where "k = ''random_fact_'' @ c"
  define o2 where "o2 = \<lparr>opt_category = None, forceNew = False, saveAIFacts = None,
                 skipCache = True, excludeAI = False\<rparr>"
  obtain r w1 where g: "cget now w k = (r, w1)" by (cases "cget now w k")
  then have f1: "facts_up w1 = facts_up w" "db_facts w1 = db_facts w" "trace w1 = trace w @ [CacheGet k]"
    using world_cget[of now w k] trace_cget[of now w k] by simp_all
  have r: "(if forceNew opts then None else r) = None" using assms(3) g by (auto simp: k_def)
  have fnd: "find (\<lambda>f. category f = toLowerCase c \<and> verified f \<and>
                   (if excludeAI o2 then \<not> ai_generated f else True)) (db_facts w1) = Some f"
    using assms(6) f1 by (simp add: o2_def)
  have sk: "skipCache o2 \<or> fst (cget now w1 (''fact_category_'' @ c)) = None" by (simp add: o2_def)
  have fu: "facts_up w1" using assms(5) f1 by simp
  note sh = getFactByCategory_store_call[OF assms(4) fu sk fnd, of cfg]
  obtain w2 where w2: "getFactByCategory cfg now w1 c o2 = (Inr f, w2)"
    and t2: "trace w2 = trace w1 @ [StoreFindOne c False, CacheSet (''fact_category_'' @ c) f 1800]"
    using sh by (cases "getFactByCategory cfg now w1 c o2") (simp add: o2_def)
  have tr: "truthy (opt_category opts)" using assms(1,2) by (simp add: truthy_def)
  have "getRandomFact cfg now w opts = (Inr f, cset cfg now w2 k f 300)"
    using g r tr assms(1) w2
    unfolding getRandomFact_def randomFact_database_def Let_def o2_def[symmetric]
    by (simp add: k_def)
  then show "fst (getRandomFact cfg now w opts) = Inr f"
    and "trace (snd (getRandomFact cfg now w opts))
           = trace w @ [CacheGet (''random_fact_'' @ c), StoreFindOne c False,
                CacheSet (''fact_category_'' @ c) f 1800, CacheSet (''random_fact_'' @ c) f 300]"
    using t2 f1 by (simp_all add: k_def trace_cset)
qed

lemma generateFact_call:
  assumes "ai_configured cfg"
    and "forceNew opts \<or> fst (cget now w (''ai_fact_'' @ c @ ''_'' @ options_json cfg opts)) = None"
    and "ai_reply cfg c = Inr g"
  shows "fst (generateFact cfg now w c opts) = Inr g"
    and "trace (snd (generateFact cfg now w c opts))
           = trace w @ [CacheGet (''ai_fact_'' @ c @ ''_'' @ options_json cfg opts), Generate c,
                CacheSet (''ai_fact_'' @ c @ ''_'' @ options_json cfg opts) g 3600]"
proof -
  define k where "k = ''ai_fact_'' @ c @ ''_'' @ options_json cfg opts"
  obtain r w1 where g: "cget now w k = (r, w1)" by (cases "cget now w k")
  then have t1: "trace w1 = trace w @ [CacheGet k]" using trace_cget[of now w k] by simp
  have r: "(if forceNew opts then None else r) = None" using assms(2) g by (auto simp: k_def)
  have "fst (generateFact cfg now w c opts) = Inr g \<and>
        trace (snd (generateFact cfg now w c opts)) = trace w @ [CacheGet k, Generate c, CacheSet k g 3600]"
    using assms(1,3) g r t1
    unfolding generateFact_def Let_def k_def[symmetric]
    by (simp add: trace_cset)
  then show "fst (generateFact cfg now w c opts) = Inr g"
    and "trace (snd (generateFact cfg now w c opts))
           = trace w @ [CacheGet (''ai_fact_'' @ c @ ''_'' @ options_json cfg opts), Generate c,
                CacheSet (''ai_fact_'' @ c @ ''_'' @ options_json cfg opts) g 3600]"
    by (simp_all add: k_def)
qed

section \<open>Claims\<close>

text \<open>
  C1, as stated for an identity, fails in two ways. The counter is kept per API key (the
  cache key is built from \<open>req.apiKey._id\<close>) while the limit comes from the owner's plan:
  a basic user (limit 100) who has sent 100 requests through one key in the window is
  refused on that key and let through on a second key of his. And the limiter fails open:
  when the store answers the read of the third request with an error, a key with limit 2
  and two recorded requests gets its third request through.
\<close>

theorem C1_counterexample:
  "userId ex_key_b = userId ex_key_plain \<and> req_user ex_req_b = req_user ex_req_a \<and>
   getRateLimitForUser (req_user ex_req_a) ex_key_plain = Inr \<lparr>rl_max = 100, windowMinutes = 15\<rparr> \<and>
   getRateLimitForUser (req_user ex_req_b) ex_key_b = Inr \<lparr>rl_max = 100, windowMinutes = 15\<rparr> \<and>
   length (fst (serve 3600 ex_conn ex_req_a (replicate 100 1000))) = 100 \<and>
   list_all (\<lambda>out. \<not> is_denied out) (fst (serve 3600 ex_conn ex_req_a (replicate 100 1000))) \<and>
   is_denied (fst (customRateLimit 3600 2000
                     (snd (serve 3600 ex_conn ex_req_a (replicate 100 1000))) ex_req_a)) \<and>
   \<not> is_denied (fst (customRateLimit 3600 2000
                     (snd (serve 3600 ex_conn ex_req_a (replicate 100 1000))) ex_req_b)) \<and>
   getRateLimitForUser (req_user ex_req) ex_key = Inr \<lparr>rl_max = 2, windowMinutes = 15\<rparr> \<and>
   map is_denied (fst (serve 3600 ex_conn_flaky ex_req [0, 1000, 2000])) = [False, False, False]"
proof -
  let ?ts = "replicate 100 (1000::int)"
  let ?c = "snd (serve 3600 ex_conn ex_req_a ?ts)"
  have ka: "req_apiKey ex_req_a = Some ex_key_plain" and ua: "req_user ex_req_a = Some ex_user"
    and kb: "req_apiKey ex_req_b = Some ex_key_b" and ub: "req_user ex_req_b = Some ex_user"
    by (simp_all add: ex_req_a_def ex_req_b_def)
  have rla: "getRateLimitForUser (req_user ex_req_a) ex_key_plain = Inr \<lparr>rl_max = 100, windowMinutes = 15\<rparr>"
    by (simp add: ex_req_a_def ex_key_plain_def ex_user_def getRateLimitForUser_def)
  have rlb: "getRateLimitForUser (req_user ex_req_b) ex_key_b = Inr \<lparr>rl_max = 100, windowMinutes = 15\<rparr>"
    by (simp add: ex_req_b_def ex_key_b_def ex_key_plain_def ex_user_def getRateLimitForUser_def)
  have w1: "windowStart 1000 = 0" and w2: "windowStart 2000 = 0" by (simp_all add: windowStart_def)
  have ea: "recorded ex_conn ex_key_plain 0 0" and eb: "recorded ex_conn ex_key_b 0 0"
    by (simp_all add: recorded_def healthy_def isConnectionReady_def ex_conn_def counted_def live_def)
  have inw: "\<forall>t\<in>set ?ts. windowStart t = 0" using w1 by simp
  note sw = serve_window[OF ka ua rla ea inw, of 3600]
  have len: "length (fst (serve 3600 ex_conn ex_req_a ?ts)) = 100" using sw by simp
  have all: "list_all (\<lambda>out. \<not> is_denied out) (fst (serve 3600 ex_conn ex_req_a ?ts))"
    unfolding list_all_length using sw by simp
  have ra: "recorded ?c ex_key_plain 0 100" using sw by simp
  have ne: "key_id ex_key_b \<noteq> key_id ex_key_plain" by (simp add: ex_key_b_def ex_key_plain_def ex_key_def)
  have rb: "recorded ?c ex_key_b 0 0" using serve_other_key[OF ka ne eb] .
  have d: "is_denied (fst (customRateLimit 3600 2000 ?c ex_req_a))"
    using customRateLimit_deny(1)[OF ra w2 ka ua rla, of 3600] by simp
  have a: "\<not> is_denied (fst (customRateLimit 3600 2000 ?c ex_req_b))"
    using customRateLimit_allow(1)[OF rb w2 kb rlb, of 3600] by simp
  have rl2: "getRateLimitForUser (req_user ex_req) ex_key = Inr \<lparr>rl_max = 2, windowMinutes = 15\<rparr>"
    by (simp add: ex_req_def ex_key_def getRateLimitForUser_def)
  have fl: "map is_denied (fst (serve 3600 ex_conn_flaky ex_req [0, 1000, 2000])) = [False, False, False]"
    by (simp add: ex_conn_flaky_def ex_req_def ex_key_def ex_user_def customRateLimit_def rl_lookup_def
        rl_continue_def getRateLimitForUser_def cache_get_def cache_increment_def client_get_def
        client_incr_def client_expire_def isConnectionReady_def rejects_def tick_def live_def
        windowStart_def Let_def)
  show ?thesis using len all d a rla rlb rl2 fl ua ub
    by (simp add: ex_key_b_def)
qed

text \<open>
  C1, as the code has it, per API key and for a counter store that is ready and answers
  every command. A key whose rate limit is \<open>L\<close> (its override, else its owner's plan limit)
  sends requests at times \<open>ts\<close>, all inside the window that starts at \<open>w\<close> and lasts 15
  minutes, and no request of the key is recorded in that window yet. The first \<open>L\<close>
  requests are let through and recorded; request number \<open>L + 1\<close> and every later one of
  the window is answered 429 with \<open>current_usage = limit = L\<close> and \<open>reset_time = w + 15 min\<close>;
  a request at a time \<open>t' \<ge> w + 15 min\<close>, whose own window has no request recorded yet,
  is let through again.
\<close>

theorem C1_limit_denies_until_window_ends:
  assumes "req_apiKey req = Some k" and "req_user req = Some u"
    and "getRateLimitForUser (req_user req) k = Inr rl"
    and "\<forall>n. rate_limit_override k = Some n \<longrightarrow> 0 \<le> n"
    and "w mod 900000 = 0" and "\<forall>t\<in>set ts. w \<le> t \<and> t < w + 900000"
    and "recorded conn k w 0"
    and "w + 900000 \<le> t'" and "recorded conn k (windowStart t') 0"
  shows "length (fst (serve cacheTtl conn req ts)) = length ts \<and>
     (\<forall>i<length ts. is_denied (fst (serve cacheTtl conn req ts) ! i) = (rl_max rl \<le> int i)) \<and>
     (\<forall>i<length ts. rl_max rl \<le> int i \<longrightarrow>
        (\<exists>b. fst (serve cacheTtl conn req ts) ! i = Res429 b \<and> current_usage b = rl_max rl \<and>
             limit b = rl_max rl \<and>
             reset_time b = w + window_minutes b * 60 * 1000 \<and> window_minutes b = 15)) \<and>
     \<not> is_denied (fst (customRateLimit cacheTtl t' (snd (serve cacheTtl conn req ts)) req))"
proof -
  have pos: "0 < rl_max rl" using rate_limit_positive[OF assms(3,4)] .
  have inw: "\<forall>t\<in>set ts. windowStart t = w" using assms(5,6) by (auto intro: window_unique)
  note sw = serve_window[OF assms(1,2,3) assms(7) inw, of cacheTtl]
  have ne: "windowStart t' \<noteq> w" using window_bounds[of t' w] assms(8) by auto
  then have fr: "\<forall>t\<in>set ts. windowStart t \<noteq> windowStart t'" using inw by simp
  have r': "recorded (snd (serve cacheTtl conn req ts)) k (windowStart t') 0"
    using serve_frame[OF assms(1) assms(9) fr] .
  have last: "\<not> is_denied (fst (customRateLimit cacheTtl t' (snd (serve cacheTtl conn req ts)) req))"
    using customRateLimit_allow(1)[OF r' refl assms(1,3) pos] by simp
  have a: "\<forall>i<length ts. is_denied (fst (serve cacheTtl conn req ts) ! i) = (rl_max rl \<le> int i)"
    using sw by simp
  have b: "\<forall>i<length ts. rl_max rl \<le> int i \<longrightarrow>
        (\<exists>b. fst (serve cacheTtl conn req ts) ! i = Res429 b \<and> current_usage b = rl_max rl \<and>
             limit b = rl_max rl \<and>
             reset_time b = w + window_minutes b * 60 * 1000 \<and> window_minutes b = 15)"
    using sw pos by (simp add: max_def)
  show ?thesis using sw a b last by blast
qed

theorem C1_witness:
  "recorded ex_conn ex_key 0 0 \<and> recorded ex_conn ex_key (windowStart 900000) 0 \<and>
   getRateLimitForUser (req_user ex_req) ex_key = Inr \<lparr>rl_max = 2, windowMinutes = 15\<rparr> \<and>
   \<not> is_denied (fst (serve 3600 ex_conn ex_req [0, 1000, 2000, 899999]) ! 0) \<and>
   \<not> is_denied (fst (serve 3600 ex_conn ex_req [0, 1000, 2000, 899999]) ! 1) \<and>
   is_denied (fst (serve 3600 ex_conn ex_req [0, 1000, 2000, 899999]) ! 2) \<and>
   is_denied (fst (serve 3600 ex_conn ex_req [0, 1000, 2000, 899999]) ! 3) \<and>
   \<not> is_denied (fst (customRateLimit 3600 900000
                       (snd (serve 3600 ex_conn ex_req [0, 1000, 2000, 899999])) ex_req))"
proof -
  have h1: "req_apiKey ex_req = Some ex_key" and h2: "req_user ex_req = Some ex_user"
    by (simp_all add: ex_req_def)
  have h3: "getRateLimitForUser (req_user ex_req) ex_key = Inr \<lparr>rl_max = 2, windowMinutes = 15\<rparr>"
    by (simp add: ex_req_def ex_key_def getRateLimitForUser_def)
  have h4: "\<forall>n. rate_limit_override ex_key = Some n \<longrightarrow> 0 \<le> n" by (simp add: ex_key_def)
  have h5: "(0::int) mod 900000 = 0" by simp
  have h6: "\<forall>t\<in>set [0, 1000, 2000, 899999::int]. 0 \<le> t \<and> t < 0 + 900000" by simp
  have h7: "recorded ex_conn ex_key w 0" for w
    by (simp add: recorded_def healthy_def isConnectionReady_def ex_conn_def counted_def live_def)
  have h8: "(0::int) + 900000 \<le> 900000" by simp
  note t = C1_limit_denies_until_window_ends[OF h1 h2 h3 h4 h5 h6 h7 h8 h7, of 3600]
  have a: "\<forall>i<4. is_denied (fst (serve 3600 ex_conn ex_req [0, 1000, 2000, 899999]) ! i) = (2 \<le> int i)"
    using t by simp
  show ?thesis
    using a[rule_format, of 0] a[rule_format, of 1] a[rule_format, of 2] a[rule_format, of 3] t h3 h7
    by simp
qed

text \<open>
  C2, as stated, fails: with a limit of 1 and an empty window, two requests that both
  read the counter before either increments it are both let through and leave the counter
  at 2, where a test-and-increment in one step lets through the first and refuses the
  second.
\<close>

theorem C2_counterexample:
  "getRateLimitForUser (req_user ex_req1) ex_key1 = Inr \<lparr>rl_max = 1, windowMinutes = 15\<rparr> \<and>
   counted 0 ex_conn ex_key1 = 0 \<and>
   map is_denied (fst (race 3600 0 ex_conn ex_req1 ex_key1 2)) = [False, False] \<and>
   counted 0 (snd (race 3600 0 ex_conn ex_req1 ex_key1 2)) ex_key1 = 2 \<and>
   fst (spec_checkAndReserve 1 0) \<and>
   \<not> fst (spec_checkAndReserve 1 (snd (spec_checkAndReserve 1 0)))"
proof -
  have h3: "getRateLimitForUser (req_user ex_req1) ex_key1 = Inr \<lparr>rl_max = 1, windowMinutes = 15\<rparr>"
    by (simp add: ex_req1_def ex_key1_def ex_key_def getRateLimitForUser_def)
  have h7: "recorded ex_conn ex_key1 0 0"
    by (simp add: recorded_def healthy_def isConnectionReady_def ex_conn_def counted_def live_def)
  have w0: "windowStart 0 = 0" by (simp add: windowStart_def)
  have c0: "counted 0 ex_conn ex_key1 = 0" using h7 w0 by (simp add: recorded_def)
  note t = race_allowed[OF h3 w0 h7, of 3600 2]
  have "counted 0 (snd (race 3600 0 ex_conn ex_req1 ex_key1 2)) ex_key1 = 2"
    using t w0 by (simp add: recorded_def)
  then show ?thesis using t h3 c0 by (simp add: spec_checkAndReserve_def numeral_2_eq_2)
qed

text \<open>
  C2, as the code has it. \<open>customRateLimit\<close> reads the counter with \<open>cache.get\<close> and, when
  the value it read is below the limit, advances the counter with \<open>cache.increment\<close>, the
  store's \<open>INCR\<close>: two store operations with an \<open>await\<close> between them, not one
  test-and-increment. No increment is lost, since the application never writes back a
  value it computed from its read. When \<open>n\<close> concurrent requests of one key have all read
  the count \<open>c\<close>, below the limit \<open>L\<close>, before any of them increments, all \<open>n\<close> are let
  through, with the same \<open>X-RateLimit-Remaining\<close>, and the counter ends at \<open>c + n\<close>, which
  is above the limit by at most \<open>n - 1\<close>.
\<close>

theorem C2_reads_then_increments:
  assumes "getRateLimitForUser (req_user req) k = Inr rl" and "windowStart now = w"
    and "recorded conn k w c" and "c < rl_max rl"
  shows "fst (race cacheTtl now conn req k n) =
       replicate n (Next (Some \<lparr>hdr_limit = rl_max rl, hdr_remaining = max 0 (rl_max rl - c - 1),
                                 hdr_reset = w + 900000\<rparr>)) \<and>
     recorded (snd (race cacheTtl now conn req k n)) k w (c + int n) \<and>
     (c + int n) - rl_max rl \<le> int n - 1"
  using race_allowed[OF assms] assms(4) by simp

theorem C2_witness:
  "getRateLimitForUser (req_user ex_req) ex_key = Inr \<lparr>rl_max = 2, windowMinutes = 15\<rparr> \<and>
   windowStart 1000 = 0 \<and> recorded ex_conn ex_key 0 0 \<and>
   fst (race 3600 1000 ex_conn ex_req ex_key 3) =
     replicate 3 (Next (Some \<lparr>hdr_limit = 2, hdr_remaining = 1, hdr_reset = 900000\<rparr>)) \<and>
   recorded (snd (race 3600 1000 ex_conn ex_req ex_key 3)) ex_key 0 3"
proof -
  have h3: "getRateLimitForUser (req_user ex_req) ex_key = Inr \<lparr>rl_max = 2, windowMinutes = 15\<rparr>"
    by (simp add: ex_req_def ex_key_def getRateLimitForUser_def)
  have h7: "recorded ex_conn ex_key 0 0"
    by (simp add: recorded_def healthy_def isConnectionReady_def ex_conn_def counted_def live_def)
  have w0: "windowStart 1000 = 0" by (simp add: windowStart_def)
  show ?thesis using C2_reads_then_increments[OF h3 w0 h7, of 3600 3] h3 h7 w0 by simp
qed




text \<open>
  C4, at the request \<open>category = atlantis\<close>, which is not in the category list:
  \<open>getRandomFact\<close> fails with \<open>Invalid category: atlantis\<close>, and before it does it has read
  the cache under \<open>random_fact_atlantis\<close>; the check of the category only happens inside
  \<open>getFactByCategory\<close>, which \<open>getRandomFact\<close> calls after its own cache lookup.
  \<open>getFactByCategory\<close> itself, called with the same category, fails before it touches the
  cache, the store or the generator.
\<close>

theorem C4_random_fact_reads_cache_first:
  "fst (getRandomFact ex_cfg 0 ex_world (ex_opts\<lparr>opt_category := Some ''atlantis''\<rparr>))
     = Inl (InvalidCategory ''atlantis'') \<and>
   trace (snd (getRandomFact ex_cfg 0 ex_world (ex_opts\<lparr>opt_category := Some ''atlantis''\<rparr>)))
     = [CacheGet ''random_fact_atlantis''] \<and>
   getFactByCategory ex_cfg 0 ex_world ''atlantis'' ex_opts
     = (Inl (InvalidCategory ''atlantis''), ex_world)"
  by (simp add: fs_defs ex_fs_defs)

text \<open>
  C5, as stated, fails on the source label: with a populated entry under
  \<open>random_fact_any\<close> the controller answers 200 from that entry with \<open>meta.source\<close>
  \<open>database\<close> and \<open>meta.cached\<close> false. The controller has no \<open>cache\<close> label.
\<close>

theorem C5_counterexample:
  "fst (cget 0 ex_world_hit ''random_fact_any'') = Some ex_ai_fact \<and>
   fst (controller_getRandomFact ex_cfg 0 ex_world_hit ex_query) = Res200 ex_ai_fact ''database'' False \<and>
   ''database'' \<noteq> ''cache''"
  by (simp add: fs_defs ex_fs_defs)

text \<open>
  C5, as the code has it. For every \<open>getRandomFact\<close> request without \<open>forceNew\<close> whose
  cache key \<open>random_fact_<category or any>\<close> has a live entry in a healthy cache, the
  service returns that entry, and the cache read is all it does: no store query, no
  generator call, no cache write, and the Fact collection is unchanged. Whenever the
  controller answers 200, \<open>meta.source\<close> is \<open>ai\<close> or \<open>database\<close>, after the fact's
  \<open>ai_generated\<close> flag, and \<open>meta.cached\<close> is false.
\<close>

theorem C5_cache_hit_skips_store_and_generator:
  assumes "healthy (fact_cache w)" and "client (fact_cache w) = Some c"
    and "rk = ''random_fact_'' @
            (if truthy (opt_category opts)
             then (case opt_category opts of None \<Rightarrow> [] | Some x \<Rightarrow> x) else ''any'')"
    and "live now (entries c rk) = Some f"
    and "\<not> forceNew opts"
  shows "fst (getRandomFact cfg now w opts) = Inr f \<and>
     trace (snd (getRandomFact cfg now w opts)) = trace w @ [CacheGet rk] \<and>
     db_facts (snd (getRandomFact cfg now w opts)) = db_facts w \<and>
     (\<forall>q d src cached w'.
        controller_getRandomFact cfg now w q = (Res200 d src cached, w') \<longrightarrow>
          src = (if ai_generated d then ''ai'' else ''database'') \<and> \<not> cached \<and> src \<noteq> ''cache'')"
proof -
  have g: "fst (cget now w rk) = Some f" using cget_healthy[OF assms(1,2)] assms(4) by simp
  have "cget now w rk = (Some f, snd (cget now w rk))" using g by (metis prod.collapse)
  then have "getRandomFact cfg now w opts = (Inr f, snd (cget now w rk))"
    using getRandomFact_hit[OF assms(3) _ assms(5)] by simp
  then show ?thesis using controller_labels by (simp add: trace_cget db_facts_cget) blast
qed

theorem C5_witness:
  "healthy (fact_cache ex_world_hit) \<and>
   fst (cget 0 ex_world_hit ''random_fact_any'') = Some ex_ai_fact \<and>
   \<not> forceNew ex_opts \<and>
   fst (getRandomFact ex_cfg 0 ex_world_hit ex_opts) = Inr ex_ai_fact \<and>
   trace (snd (getRandomFact ex_cfg 0 ex_world_hit ex_opts)) = [CacheGet ''random_fact_any''] \<and>
   db_facts (snd (getRandomFact ex_cfg 0 ex_world_hit ex_opts)) = [ex_db_fact]"
proof -
  have h: "healthy (fact_cache ex_world_hit)"
    by (simp add: healthy_def isConnectionReady_def ex_world_hit_def ex_cache_hit_def)
  have c: "client (fact_cache ex_world_hit) =
             Some \<lparr>client_status = ''ready'', faults = (\<lambda>n. False), issued = 0,
                   entries = (\<lambda>x. if x = ''random_fact_any''
                                   then Some (ex_ai_fact, Some 300000) else None)\<rparr>"
    by (simp add: ex_world_hit_def ex_cache_hit_def)
  have k: "''random_fact_any'' = ''random_fact_'' @
            (if truthy (opt_category ex_opts)
             then (case opt_category ex_opts of None \<Rightarrow> [] | Some x \<Rightarrow> x) else ''any'')"
    by (simp add: ex_opts_def truthy_def)
  have l: "live 0 (entries \<lparr>client_status = ''ready'', faults = (\<lambda>n. False), issued = 0,
                   entries = (\<lambda>x. if x = ''random_fact_any''
                                   then Some (ex_ai_fact, Some 300000) else None)\<rparr> ''random_fact_any'')
             = Some ex_ai_fact"
    by (simp add: live_def)
  have n: "\<not> forceNew ex_opts" by (simp add: ex_opts_def)
  show ?thesis
    using C5_cache_hit_skips_store_and_generator[OF h c k l n, of ex_cfg] h n
      cget_healthy[OF h c, of 0 "''random_fact_any''"] l
    by (simp add: ex_world_hit_def)
qed

text \<open>
  C6, as stated, fails on the error kind: \<open>findByKey\<close> looks only among the active
  records, so a revoked credential is answered exactly as a credential that no record
  holds, 403 \<open>INVALID_API_KEY\<close>. The middleware's answer for a credential that was found
  and is not valid for the request (here: expired) is a different one, 403
  \<open>ACCESS_DENIED\<close>.
\<close>

theorem C6_counterexample:
  "key_status ex_key_revoked = ''revoked'' \<and>
   presented ex_auth_req = Some (key ex_key_revoked) \<and>
   fst (apiKeyAuth 100 ex_db_revoked ex_auth_req) = AuthRejected 403 ''INVALID_API_KEY'' \<and>
   fst (apiKeyAuth 100 ex_db_empty ex_auth_req) = AuthRejected 403 ''INVALID_API_KEY'' \<and>
   fst (apiKeyAuth 100 ex_db_expired ex_auth_req) = AuthRejected 403 ''ACCESS_DENIED''"
  by (simp add: ex_key_revoked_def ex_key_expired_def ex_key_def ex_auth_req_def presented_def
      js_or_def truthy_def apiKeyAuth_def findByKey_def ex_db_revoked_def ex_db_empty_def
      ex_db_expired_def ex_user_def isValidForRequest_def is_expired_def)

text \<open>
  C6, as the code has it. A presented credential all of whose stored records have a status
  other than \<open>active\<close> never authorizes a request, whatever the status of the owning user:
  \<open>apiKeyAuth\<close> answers 403 \<open>INVALID_API_KEY\<close>, as for an unknown credential (and 500
  \<open>AUTH_ERROR\<close> when the database is down).
\<close>

theorem C6_inactive_credential_rejected:
  assumes "presented req = Some s" and "s \<noteq> []"
    and "\<forall>r\<in>set (apiKeys db). key r = s \<longrightarrow> key_status r \<noteq> ''active''"
  shows "fst (apiKeyAuth now db req) =
           (if db_up db then AuthRejected 403 ''INVALID_API_KEY'' else AuthRejected 500 ''AUTH_ERROR'')"
  using assms find_none_inactive[OF assms(3)]
  by (simp add: apiKeyAuth_def findByKey_def)

theorem C6_witness:
  "presented ex_auth_req = Some ''rfg_abc_0123456789'' \<and>
   key ex_key_revoked = ''rfg_abc_0123456789'' \<and> key_status ex_key_revoked \<noteq> ''active'' \<and>
   apiKeys ex_db_revoked = [ex_key_revoked] \<and>
   fst (apiKeyAuth 100 ex_db_revoked ex_auth_req) = AuthRejected 403 ''INVALID_API_KEY''"
proof -
  have a: "presented ex_auth_req = Some ''rfg_abc_0123456789''"
    by (simp add: ex_auth_req_def presented_def js_or_def truthy_def)
  have b: "''rfg_abc_0123456789'' \<noteq> []" by simp
  have c: "\<forall>r\<in>set (apiKeys ex_db_revoked). key r = ''rfg_abc_0123456789'' \<longrightarrow> key_status r \<noteq> ''active''"
    by (simp add: ex_db_revoked_def ex_key_revoked_def)
  show ?thesis
    using C6_inactive_credential_rejected[OF a b c, of 100] a
    by (simp add: ex_db_revoked_def ex_key_revoked_def ex_key_def)
qed

text \<open>
  C7. For every key, \<open>get\<close> of the cache layer never throws: when the connection is not
  ready, or the backing store answers the command with an error, the result is null
  (Absent). For every key, value and TTL, \<open>set\<close> never throws either: in the same two
  situations it returns false.
\<close>

theorem C7_cache_get_set_swallow_errors:
  "(\<exists>v. fst (cache_get now conn ck) = Inr v) \<and>
   (\<not> isConnectionReady conn \<longrightarrow> fst (cache_get now conn ck) = Inr None) \<and>
   (\<forall>c. client conn = Some c \<and> rejects c \<longrightarrow> fst (cache_get now conn ck) = Inr None) \<and>
   (\<exists>b. fst (cache_set cacheTtl now conn ck cv ttl) = Inr b) \<and>
   (\<not> isConnectionReady conn \<longrightarrow> fst (cache_set cacheTtl now conn ck cv ttl) = Inr False) \<and>
   (\<forall>c. client conn = Some c \<and> rejects c
      \<longrightarrow> fst (cache_set cacheTtl now conn ck cv ttl) = Inr False)"
  by (auto simp: cache_get_def cache_set_def client_get_def client_set_def client_setex_def
      Let_def split: option.splits prod.splits sum.splits if_splits)

theorem C7_witness:
  "\<not> isConnectionReady down_conn \<and>
   fst (cache_get 0 down_conn ''k'') = Inr None \<and>
   fst (cache_set 3600 0 down_conn ''k'' ''v'' (Some 300)) = Inr False \<and>
   (\<exists>c. client failing_conn = Some c \<and> rejects c) \<and>
   fst (cache_get 0 failing_conn ''k'') = Inr None \<and>
   fst (cache_set 3600 0 failing_conn ''k'' ''v'' (Some 300)) = Inr False"
proof -
  have d: "\<not> isConnectionReady down_conn" by (simp add: down_conn_def isConnectionReady_def)
  have f: "\<exists>c. client failing_conn = Some c \<and> rejects c" by (simp add: failing_conn_def rejects_def)
  show ?thesis
    using C7_cache_get_set_swallow_errors[of 0 down_conn "''k''" 3600 "''v''" "Some 300"]
      C7_cache_get_set_swallow_errors[of 0 failing_conn "''k''" 3600 "''v''" "Some 300"] d f
    by auto
qed



text \<open>
  C9, as stated, fails at the turn of the month: \<open>recordError\<close> saves the document, and
  the \<open>pre('save')\<close> hook of the ApiKey schema resets the monthly counter once the reset
  date has passed. A key with 5 monthly requests and a reset date of 100 has 0 monthly
  requests after a request that ends with status 500 at time 200.
\<close>

theorem C9_counterexample:
  "map_option monthly_requests (t_apiKey ex_track) = Some 5 \<and>
   map_option monthly_requests (snd (trackRequestCompletion ex_env (\<lambda>i. True) 200 ex_track 500)) = Some 0"
  by (simp add: ex_track_def ex_key_stale_def ex_key_def trackRequestCompletion_def recordError_def
      apiKey_save_def apiKey_resetMonthlyUsage_def Let_def)

text \<open>
  C9, as the code has it. For every request that completes with a status of 400 or more,
  \<open>trackRequestCompletion\<close> leaves the user document as it is and, on the key, adds one to
  \<open>error_count\<close>; \<open>total_requests\<close>, the average response time, \<open>last_used\<close> and the
  endpoint statistics stay as they are; \<open>monthly_requests\<close> is not increased: it stays as
  it is, unless the monthly reset date has passed, when the save hook sets it to 0.
  Without a key on the request nothing is recorded.
\<close>

theorem C9_error_status_charges_nothing:
  assumes "400 \<le> statusCode"
  shows "fst (trackRequestCompletion env db_ok now req statusCode) = t_user req \<and>
     (case t_apiKey req of
        None \<Rightarrow> snd (trackRequestCompletion env db_ok now req statusCode) = None
      | Some k \<Rightarrow>
          (\<exists>k'. snd (trackRequestCompletion env db_ok now req statusCode) = Some k' \<and>
             error_count k' = error_count k + 1 \<and> total_requests k' = total_requests k \<and>
             avg_response_time k' = avg_response_time k \<and> last_used k' = last_used k \<and>
             popular_endpoints k' = popular_endpoints k \<and>
             monthly_requests k' = (if now \<ge> monthly_reset_date k then 0 else monthly_requests k)))"
proof -
  have s: "\<not> statusCode < 400" using assms by simp
  show ?thesis
  proof (cases "t_apiKey req")
    case None
    then show ?thesis using s
      by (simp add: trackRequestCompletion_def Let_def split: option.splits)
  next
    case (Some k)
    have "trackRequestCompletion env db_ok now req statusCode =
            (t_user req, Some (snd (recordError env (db_ok 3) now k)))"
      using s Some by (simp add: trackRequestCompletion_def Let_def split: option.splits prod.splits)
    then show ?thesis using Some recordError_fields[OF refl, of env "db_ok 3" now k] by simp
  qed
qed

theorem C9_witness:
  "(400::int) \<le> 500 \<and>
   fst (trackRequestCompletion ex_env (\<lambda>i. True) 200 ex_track_fresh 500) = Some ex_user \<and>
   map_option error_count (snd (trackRequestCompletion ex_env (\<lambda>i. True) 200 ex_track_fresh 500)) = Some 1 \<and>
   map_option total_requests (snd (trackRequestCompletion ex_env (\<lambda>i. True) 200 ex_track_fresh 500)) = Some 0 \<and>
   map_option monthly_requests (snd (trackRequestCompletion ex_env (\<lambda>i. True) 200 ex_track_fresh 500)) = Some 5 \<and>
   map_option avg_response_time (snd (trackRequestCompletion ex_env (\<lambda>i. True) 200 ex_track_fresh 500)) = Some 0"
proof -
  have a: "(400::int) \<le> 500" by simp
  show ?thesis
    using C9_error_status_charges_nothing[OF a, of ex_env "\<lambda>i. True" 200 ex_track_fresh]
    by (auto simp: ex_track_fresh_def ex_key_def)
qed

text \<open>
  C10, as stated, fails for a secret that has the shape of its own mask: the key
  \<open>abcd...wxyz\<close> is 11 characters long, and its serialization carries it whole in
  \<open>masked_key\<close>.
\<close>

theorem C10_counterexample:
  "json_key ex_json_dots = Some ''abcd...wxyz'' \<and> length ''abcd...wxyz'' > 8 \<and>
   masked_key (transform ex_json_dots) = Some ''abcd...wxyz''"
  by (simp add: ex_json_dots_def transform_def)

text \<open>
  C10, as the code has it. For every ApiKey object whose key is longer than 8 characters,
  the \<open>toJSON\<close> transform deletes the \<open>key\<close> property and sets \<open>masked_key\<close> to the first 4
  characters, the literal \<open>...\<close> and the last 4 characters, 11 characters in all; for a
  key longer than 11 characters the masked key is not the secret.
\<close>

theorem C10_key_masked:
  assumes "json_key ret = Some k" and "length k > 8"
  shows "json_key (transform ret) = None \<and>
         masked_key (transform ret) = Some (take 4 k @ ''...'' @ drop (length k - 4) k) \<and>
         length (take 4 k @ ''...'' @ drop (length k - 4) k) = 11 \<and>
         (length k > 11 \<longrightarrow> masked_key (transform ret) \<noteq> Some k)"
proof -
  have ne: "k \<noteq> []" using assms(2) by auto
  have m: "masked_key (transform ret) = Some (take 4 k @ ''...'' @ drop (length k - 4) k)"
    and j: "json_key (transform ret) = None"
    using assms ne by (simp_all add: transform_def)
  have l: "length (take 4 k @ ''...'' @ drop (length k - 4) k) = 11" using assms(2) by simp
  have "length k > 11 \<longrightarrow> take 4 k @ ''...'' @ drop (length k - 4) k \<noteq> k"
    using l by (metis less_irrefl)
  then show ?thesis using m j l by simp
qed

theorem C10_witness:
  "json_key ex_json = Some ''rfg_abc_0123456789'' \<and> length ''rfg_abc_0123456789'' > 11 \<and>
   json_key (transform ex_json) = None \<and>
   masked_key (transform ex_json) = Some ''rfg_...6789'' \<and>
   masked_key (transform ex_json) \<noteq> Some ''rfg_abc_0123456789''"
proof -
  have a: "json_key ex_json = Some ''rfg_abc_0123456789''" by (simp add: ex_json_def)
  have b: "length ''rfg_abc_0123456789'' > 8" by simp
  show ?thesis using C10_key_masked[OF a b] a by simp
qed

end
